theory Spec2Isabelle
  imports Complex_Main "HOL-Library.Multiset"
begin

section \<open>Data model of \<open>src/api/ashare.py\<close>\<close>

text \<open>
  The module wraps a remote market-data client (\<open>self.pro\<close>) and reshapes its long-format
  answers with pandas. The embedding keeps the shape of the Python:

  \<^item> a Python float is an exact rational here (rounding is not modelled); a cell that
    holds NaN is \<open>None\<close>;
  \<^item> a trade date is the integer read from the provider's \<open>YYYYMMDD\<close> string, and
    \<open>pd.to_datetime\<close> is the identity on it (it preserves the order of well-formed dates);
  \<^item> a provider answer (a DataFrame) is a \<open>frame\<close>: the labels of its data columns, and
    its rows in arrival order. Every row carries its two identifying columns
    \<open>trade_date\<close> and \<open>ts_code\<close> as fields of their own, and its data cells by label;
  \<^item> an exception is a value \<open>Inl e\<close>; the remote calls, the pauses and the printed
    lines are events of a trace that each operation returns next to its result.
\<close>

type_synonym float = rat
type_synonym date = int

datatype error =
    KeyError string
  | ValueError string
  | IndexError string
  | RemoteError string

record row =
  trade_date :: date
  ts_code :: string
  cells :: "string \<rightharpoonup> float"

record frame =
  columns :: "string list"
  rows :: "row list"

text \<open>The client \<open>self.pro\<close>: one function per endpoint, from the arguments the module
  passes (\<open>ts_code\<close>, \<open>start_date\<close>, \<open>end_date\<close>, and \<open>fields\<close> for \<open>daily_basic\<close>) to
  the answer or the exception the call raises.\<close>

record pro_api =
  daily :: "string \<Rightarrow> string \<Rightarrow> string \<Rightarrow> error + frame"
  daily_basic :: "string \<Rightarrow> string \<Rightarrow> string \<Rightarrow> string list \<Rightarrow> error + frame"
  index_daily :: "string \<Rightarrow> string \<Rightarrow> string \<Rightarrow> error + frame"

text \<open>\<open>class TushareDataHandler\<close>, lines 6-20.\<close>

record handler =
  start_date :: string
  end_date :: string
  frequency :: string
  pro :: pro_api

text \<open>The printed lines (their text is Chinese in the source) and the observable events.\<close>

datatype message =
    Start_prices
  | Start_factors
  | Fetch_done
  | No_data
  | Progress nat

datatype event =
    Call_daily string string string
  | Call_daily_basic string string string "string list"
  | Call_index_daily string string string
  | Sleep float
  | Print message

text \<open>The wide table: its two-level column keys \<open>(symbol, field)\<close> in order, and its rows
  in order, each a date with one cell per column.\<close>

record wide =
  wcolumns :: "(string \<times> string) list"
  wrows :: "(date \<times> float option list) list"

text \<open>What \<open>df.loc[mask, label]\<close> gives: a Series (date-indexed values) when one column has
  the label, a DataFrame when several have.\<close>

datatype selection =
    Series "(date \<times> float option) list"
  | SubFrame

section \<open>The pandas operations the module uses\<close>

text \<open>\<open>Index.unique()\<close>: the distinct values in first-seen order.\<close>

primrec unique_from :: "'a list \<Rightarrow> 'a list \<Rightarrow> 'a list" where
  "unique_from seen [] = []"
| "unique_from seen (x # xs) =
     (if x \<in> set seen then unique_from seen xs else x # unique_from (x # seen) xs)"

definition unique :: "'a list \<Rightarrow> 'a list" where
  "unique xs = unique_from [] xs"

text \<open>\<open>','.join(stock_list)\<close>.\<close>

fun join_comma :: "string list \<Rightarrow> string" where
  "join_comma [] = []"
| "join_comma [s] = s"
| "join_comma (s # t # ss) = s @ '','' @ join_comma (t # ss)"

text \<open>\<open>df['ts_code'] = stock\<close>: every row gets the requested symbol.\<close>

definition set_ts_code :: "frame \<Rightarrow> string \<Rightarrow> frame" where
  "set_ts_code df stock = df\<lparr>rows := map (\<lambda>r. r\<lparr>ts_code := stock\<rparr>) (rows df)\<rparr>"

text \<open>\<open>pd.concat(all_data)\<close>: raises on an empty list; otherwise the rows in order, under
  the union of the column labels in first-seen order (outer join, unsorted).\<close>

definition pd_concat :: "frame list \<Rightarrow> error + frame" where
  "pd_concat dfs =
     (if dfs = [] then Inl (ValueError ''No objects to concatenate'')
      else Inr \<lparr>columns = unique (concat (map columns dfs)),
                rows = concat (map rows dfs)\<rparr>)"

text \<open>\<open>df[fields]\<close> with a list of labels: \<open>KeyError\<close> when a label is no column, else the
  named columns in the order (and with the repetitions) of the list.\<close>

definition select_columns :: "frame \<Rightarrow> string list \<Rightarrow> error + frame" where
  "select_columns df flds =
     (case find (\<lambda>f. f \<notin> set (columns df)) flds of
        Some f \<Rightarrow> Inl (KeyError f)
      | None \<Rightarrow>
          Inr \<lparr>columns = flds,
               rows = map (\<lambda>r. r\<lparr>cells := cells r |` set flds\<rparr>) (rows df)\<rparr>)"

text \<open>\<open>df.rename(columns=mapping)\<close>: a label in the mapping is replaced, any other is
  kept; a cell is found under its new label.\<close>

definition rename_label :: "(string \<rightharpoonup> string) \<Rightarrow> string \<Rightarrow> string" where
  "rename_label m c = (case m c of Some c' \<Rightarrow> c' | None \<Rightarrow> c)"

definition rename_columns :: "(string \<rightharpoonup> string) \<Rightarrow> frame \<Rightarrow> frame" where
  "rename_columns m df =
     \<lparr>columns = map (rename_label m) (columns df),
      rows = map (\<lambda>r. r\<lparr>cells :=
                 (\<lambda>c'. case find (\<lambda>c. rename_label m c = c') (columns df) of
                          None \<Rightarrow> None
                        | Some c \<Rightarrow> cells r c)\<rparr>) (rows df)\<rparr>"

text \<open>\<open>df.loc[df.index.get_level_values('ts_code') == stock, field]\<close> followed by
  \<open>droplevel('ts_code')\<close>: the rows of the symbol, in order, as a date-indexed series.\<close>

definition loc_symbol_field :: "frame \<Rightarrow> string \<Rightarrow> string \<Rightarrow> error + selection" where
  "loc_symbol_field df stock field =
     (if count_list (columns df) field = 0 then Inl (KeyError field)
      else if count_list (columns df) field = 1 then
        Inr (Series (map (\<lambda>r. (trade_date r, cells r field))
                         (filter (\<lambda>r. ts_code r = stock) (rows df))))
      else Inr SubFrame)"

text \<open>A Python \<open>dict\<close>: assigning to a key that exists keeps the key's place.\<close>

fun dict_set :: "('k \<times> 'v) list \<Rightarrow> 'k \<Rightarrow> 'v \<Rightarrow> ('k \<times> 'v) list" where
  "dict_set [] k v = [(k, v)]"
| "dict_set ((k', v') # d) k v =
     (if k' = k then (k, v) # d else (k', v') # dict_set d k v)"

text \<open>\<open>Index.union\<close> as \<open>pd.DataFrame\<close> applies it to two date indexes: the left one when
  the right one is empty or equal, the right one when the left is empty, else the sorted
  union in which a date is repeated as often as in the index that repeats it most.\<close>

definition union_index :: "date list \<Rightarrow> date list \<Rightarrow> date list" where
  "union_index a b =
     (if b = [] \<or> a = b then a
      else if a = [] then b
      else sort (a @ fold remove1 a b))"

definition union_indexes :: "date list list \<Rightarrow> date list" where
  "union_indexes ixs = (case ixs of [] \<Rightarrow> [] | i # rest \<Rightarrow> foldl union_index i rest)"

text \<open>\<open>Series.reindex(index)\<close> inside \<open>pd.DataFrame\<close>: nothing to do when the series already
  has that index; \<open>ValueError\<close> when the series repeats a date; else the value at each date
  of the index, NaN where the series has none.\<close>

definition reindex :: "(date \<times> float option) list \<Rightarrow> date list \<Rightarrow> error + float option list" where
  "reindex s ix =
     (if map fst s = ix then Inr (map snd s)
      else if \<not> distinct (map fst s) then
        Inl (ValueError ''cannot reindex on an axis with duplicate labels'')
      else Inr (map (\<lambda>d. case map_of s d of None \<Rightarrow> None | Some v \<Rightarrow> v) ix))"

fun reindex_all :: "(date \<times> float option) list list \<Rightarrow> date list \<Rightarrow> error + float option list list" where
  "reindex_all [] ix = Inr []"
| "reindex_all (s # ss) ix =
     (case reindex s ix of
        Inl e \<Rightarrow> Inl e
      | Inr vs \<Rightarrow> (case reindex_all ss ix of Inl e \<Rightarrow> Inl e | Inr vss \<Rightarrow> Inr (vs # vss)))"

fun series_of :: "selection list \<Rightarrow> error + (date \<times> float option) list list" where
  "series_of [] = Inr []"
| "series_of (SubFrame # vs) = Inl (ValueError ''If using all scalar values, you must pass an index'')"
| "series_of (Series s # vs) =
     (case series_of vs of Inl e \<Rightarrow> Inl e | Inr ss \<Rightarrow> Inr (s # ss))"

text \<open>\<open>pd.DataFrame(new_structure_data)\<close>: the keys become the columns, the index is the
  union of the series' indexes, every series is aligned on it.\<close>

definition DataFrame :: "((string \<times> string) \<times> selection) list \<Rightarrow> error + wide" where
  "DataFrame d =
     (case series_of (map snd d) of
        Inl e \<Rightarrow> Inl e
      | Inr ss \<Rightarrow>
          (let ix = union_indexes (map (map fst) ss) in
           case reindex_all ss ix of
             Inl e \<Rightarrow> Inl e
           | Inr vss \<Rightarrow>
               Inr \<lparr>wcolumns = map fst d,
                    wrows = map (\<lambda>i. (ix ! i, map (\<lambda>vs. vs ! i) vss)) [0..<length ix]\<rparr>))"

text \<open>\<open>df.sort_index(ascending=True)\<close>: the rows by date (rows of one date keep their
  order).\<close>

definition sort_index :: "wide \<Rightarrow> wide" where
  "sort_index w = w\<lparr>wrows := sort_key fst (wrows w)\<rparr>"

text \<open>\<open>Series.cumprod()\<close>: the running product; a NaN stays NaN in its place and is left
  out of the product.\<close>

fun cumprod_from :: "float \<Rightarrow> float option list \<Rightarrow> float option list" where
  "cumprod_from acc [] = []"
| "cumprod_from acc (None # xs) = None # cumprod_from acc xs"
| "cumprod_from acc (Some x # xs) = Some (acc * x) # cumprod_from (acc * x) xs"

definition cumprod :: "float option list \<Rightarrow> float option list" where
  "cumprod xs = cumprod_from 1 xs"

section \<open>The operations of \<open>TushareDataHandler\<close>\<close>

subsection \<open>\<open>get_index_prices_from_tushare\<close>, lines 33-53\<close>

text \<open>One row of the returned frame: its date (the index), \<open>ts_code\<close> and
  \<open>benchmark_net_value\<close>. The assignment of line 51 goes through \<open>.loc\<close> with the first
  date as label, so it reaches every row that carries that date.\<close>

definition get_index_prices_from_tushare ::
  "handler \<Rightarrow> string \<Rightarrow> event list \<times> (error + (date \<times> string \<times> float option) list)" where
  "get_index_prices_from_tushare h index_code =
     (let tr = [Call_index_daily index_code (start_date h) (end_date h)] in
      case index_daily (pro h) index_code (start_date h) (end_date h) of
        Inl e \<Rightarrow> (tr, Inl e)
      | Inr benchmark_data \<Rightarrow>
          (tr,
           let sorted_rows = sort_key trade_date (rows benchmark_data) in
           if ''pct_chg'' \<notin> set (columns benchmark_data) then Inl (KeyError ''pct_chg'')
           else
             let net = cumprod (map (\<lambda>r. map_option (\<lambda>p. 1 + p / 100) (cells r ''pct_chg''))
                                    sorted_rows) in
             case sorted_rows of
               [] \<Rightarrow> Inl (IndexError ''index 0 is out of bounds for axis 0 with size 0'')
             | r0 # _ \<Rightarrow>
                 Inr (map (\<lambda>(r, v). (trade_date r, ts_code r,
                                      if trade_date r = trade_date r0 then Some 1 else v))
                          (zip sorted_rows net))))"

subsection \<open>The field mapping, lines 64-71 and 123-130\<close>

definition field_mapping :: "string \<rightharpoonup> string" where
  "field_mapping =
     map_of [(''open'', ''Open''), (''high'', ''High''), (''low'', ''Low''),
             (''close'', ''Close''), (''vol'', ''Volume'')]"

text \<open>\<open>[field_mapping[field] for field in fields]\<close>: \<open>KeyError\<close> at the first unknown name.\<close>

fun mapped_fields :: "string list \<Rightarrow> error + string list" where
  "mapped_fields [] = Inr []"
| "mapped_fields (field # flds) =
     (case field_mapping field of
        None \<Rightarrow> Inl (KeyError field)
      | Some c \<Rightarrow>
          (case mapped_fields flds of Inl e \<Rightarrow> Inl e | Inr cs \<Rightarrow> Inr (c # cs)))"

subsection \<open>The long-to-wide block, lines 98-110 (again at 149-159, 197-207, 237-248)\<close>

fun fields_loop ::
  "frame \<Rightarrow> string \<Rightarrow> string list \<Rightarrow> ((string \<times> string) \<times> selection) list
     \<Rightarrow> error + ((string \<times> string) \<times> selection) list" where
  "fields_loop df stock [] d = Inr d"
| "fields_loop df stock (field # fs) d =
     (case loc_symbol_field df stock field of
        Inl e \<Rightarrow> Inl e
      | Inr series \<Rightarrow> fields_loop df stock fs (dict_set d (stock, field) series))"

fun stocks_loop ::
  "frame \<Rightarrow> string list \<Rightarrow> string list \<Rightarrow> ((string \<times> string) \<times> selection) list
     \<Rightarrow> error + ((string \<times> string) \<times> selection) list" where
  "stocks_loop df [] fs d = Inr d"
| "stocks_loop df (stock # rest) fs d =
     (case fields_loop df stock fs d of
        Inl e \<Rightarrow> Inl e
      | Inr d' \<Rightarrow> stocks_loop df rest fs d')"

definition new_structure_data ::
  "frame \<Rightarrow> string list \<Rightarrow> error + ((string \<times> string) \<times> selection) list" where
  "new_structure_data df fs = stocks_loop df (unique (map ts_code (rows df))) fs []"

definition new_structure_df :: "frame \<Rightarrow> string list \<Rightarrow> error + wide" where
  "new_structure_df df fs =
     (case new_structure_data df fs of
        Inl e \<Rightarrow> Inl e
      | Inr d \<Rightarrow> (case DataFrame d of Inl e \<Rightarrow> Inl e | Inr w \<Rightarrow> Inr (sort_index w)))"

text \<open>The reshaping of the price fetchers (lines 91-110, 143-159): select the requested
  columns, rename them, build the wide table. That of the factor fetchers (lines 190-207,
  232-248) has no renaming.\<close>

definition reshape_prices :: "frame \<Rightarrow> string list \<Rightarrow> string list \<Rightarrow> error + wide" where
  "reshape_prices combined_data flds mapped =
     (case select_columns combined_data flds of
        Inl e \<Rightarrow> Inl e
      | Inr sel \<Rightarrow> new_structure_df (rename_columns field_mapping sel) mapped)"

definition reshape_factors :: "frame \<Rightarrow> string list \<Rightarrow> error + wide" where
  "reshape_factors combined_data factors =
     (case select_columns combined_data factors of
        Inl e \<Rightarrow> Inl e
      | Inr sel \<Rightarrow> new_structure_df sel factors)"

subsection \<open>\<open>get_prices_from_tushare\<close>, lines 56-112\<close>

fun daily_loop ::
  "handler \<Rightarrow> float \<Rightarrow> string list \<Rightarrow> nat \<Rightarrow> frame list \<Rightarrow> event list
     \<Rightarrow> event list \<times> (error + frame list)" where
  "daily_loop h sleep_time [] num all_data tr = (tr, Inr all_data)"
| "daily_loop h sleep_time (stock # rest) num all_data tr =
     (let tr1 = tr @ [Call_daily stock (start_date h) (end_date h)] in
      case daily (pro h) stock (start_date h) (end_date h) of
        Inl e \<Rightarrow> (tr1, Inl e)
      | Inr df \<Rightarrow>
          daily_loop h sleep_time rest (num + 1) (all_data @ [set_ts_code df stock])
            (tr1 @ (if sleep_time > 0 then [Sleep sleep_time] else []) @ [Print (Progress num)]))"

definition get_prices_from_tushare ::
  "handler \<Rightarrow> string list \<Rightarrow> string list \<Rightarrow> float \<Rightarrow> event list \<times> (error + wide)" where
  "get_prices_from_tushare h stock_list flds sleep_time =
     (case mapped_fields flds of
        Inl e \<Rightarrow> ([], Inl e)
      | Inr mapped \<Rightarrow>
          (case daily_loop h sleep_time stock_list 0 [] [Print Start_prices] of
             (tr, Inl e) \<Rightarrow> (tr, Inl e)
           | (tr, Inr all_data) \<Rightarrow>
               (tr @ [Print Fetch_done],
                case pd_concat all_data of
                  Inl e \<Rightarrow> Inl e
                | Inr combined_data \<Rightarrow> reshape_prices combined_data flds mapped)))"

subsection \<open>\<open>get_prices_from_tushare_parallel\<close>, lines 115-161\<close>

text \<open>\<open>df_all.empty\<close> holds when the answer has no row (it always has its identifying
  columns). The result \<open>None\<close> of line 138 is \<open>Inr None\<close>.\<close>

definition get_prices_from_tushare_parallel ::
  "handler \<Rightarrow> string list \<Rightarrow> string list \<Rightarrow> event list \<times> (error + wide option)" where
  "get_prices_from_tushare_parallel h stock_list flds =
     (case mapped_fields flds of
        Inl e \<Rightarrow> ([], Inl e)
      | Inr mapped \<Rightarrow>
          (let tr = [Print Start_prices,
                     Call_daily (join_comma stock_list) (start_date h) (end_date h)] in
           case daily (pro h) (join_comma stock_list) (start_date h) (end_date h) of
             Inl e \<Rightarrow> (tr, Inl e)
           | Inr df_all \<Rightarrow>
               if rows df_all = [] then (tr @ [Print No_data], Inr None)
               else (tr @ [Print Fetch_done],
                     case reshape_prices df_all flds mapped of
                       Inl e \<Rightarrow> Inl e
                     | Inr w \<Rightarrow> Inr (Some w))))"

subsection \<open>\<open>get_factors_from_tushare\<close>, lines 164-209\<close>

fun daily_basic_loop ::
  "handler \<Rightarrow> float \<Rightarrow> string list \<Rightarrow> string list \<Rightarrow> frame list \<Rightarrow> event list
     \<Rightarrow> event list \<times> (error + frame list)" where
  "daily_basic_loop h sleep_time factors_with_date [] all_data tr = (tr, Inr all_data)"
| "daily_basic_loop h sleep_time factors_with_date (stock # rest) all_data tr =
     (let tr1 = tr @ [Call_daily_basic stock (start_date h) (end_date h) factors_with_date] in
      case daily_basic (pro h) stock (start_date h) (end_date h) factors_with_date of
        Inl e \<Rightarrow> (tr1, Inl e)
      | Inr df \<Rightarrow>
          daily_basic_loop h sleep_time factors_with_date rest (all_data @ [set_ts_code df stock])
            (tr1 @ (if sleep_time > 0 then [Sleep sleep_time] else [])))"

definition get_factors_from_tushare ::
  "handler \<Rightarrow> string list \<Rightarrow> string list \<Rightarrow> float \<Rightarrow> event list \<times> (error + wide)" where
  "get_factors_from_tushare h stock_list factors sleep_time =
     (let factors_with_date = factors @ [''trade_date''] in
      case daily_basic_loop h sleep_time factors_with_date stock_list [] [Print Start_factors] of
        (tr, Inl e) \<Rightarrow> (tr, Inl e)
      | (tr, Inr all_data) \<Rightarrow>
          (tr @ [Print Fetch_done],
           case pd_concat all_data of
             Inl e \<Rightarrow> Inl e
           | Inr combined_data \<Rightarrow> reshape_factors combined_data factors))"

subsection \<open>\<open>get_factors_from_tushare_parallel\<close>, lines 211-250\<close>

definition get_factors_from_tushare_parallel ::
  "handler \<Rightarrow> string list \<Rightarrow> string list \<Rightarrow> event list \<times> (error + wide option)" where
  "get_factors_from_tushare_parallel h stock_list factors =
     (let factors_with_date = factors @ [''trade_date'', ''ts_code''];
          tr = [Print Start_factors,
                Call_daily_basic (join_comma stock_list) (start_date h) (end_date h)
                  factors_with_date] in
      case daily_basic (pro h) (join_comma stock_list) (start_date h) (end_date h)
             factors_with_date of
        Inl e \<Rightarrow> (tr, Inl e)
      | Inr df_all \<Rightarrow>
          if rows df_all = [] then (tr @ [Print No_data], Inr None)
          else (tr @ [Print Fetch_done],
                case reshape_factors df_all factors of
                  Inl e \<Rightarrow> Inl e
                | Inr w \<Rightarrow> Inr (Some w)))"

section \<open>Concrete provider answers\<close>

text \<open>A small client for the worked examples: symbol \<open>AAA\<close> trades on two days, \<open>BBB\<close> on
  one, \<open>ZZZ\<close> on none; the combined request \<open>AAA,BBB\<close> is answered newest day first; the
  index \<open>000016.SH\<close> reports the changes 0.5, -1.0 and 2.0 percent, newest day first.\<close>

definition mk_row :: "date \<Rightarrow> string \<Rightarrow> (string \<times> float) list \<Rightarrow> row" where
  "mk_row d s cs = \<lparr>trade_date = d, ts_code = s, cells = map_of cs\<rparr>"

definition price_columns :: "string list" where
  "price_columns = [''open'', ''high'', ''low'', ''close'', ''pre_close'', ''change'',
                    ''pct_chg'', ''vol'', ''amount'']"

definition demo_daily :: "string \<Rightarrow> string \<Rightarrow> string \<Rightarrow> error + frame" where
  "demo_daily code sd ed =
     (if code = ''AAA'' then
        Inr \<lparr>columns = price_columns,
             rows = [mk_row 20240103 ''AAA'' [(''close'', 11), (''vol'', 500)],
                     mk_row 20240102 ''AAA'' [(''close'', 10), (''vol'', 400)]]\<rparr>
      else if code = ''BBB'' then
        Inr \<lparr>columns = price_columns,
             rows = [mk_row 20240102 ''BBB'' [(''close'', 20), (''vol'', 700)]]\<rparr>
      else if code = ''AAA,BBB'' then
        Inr \<lparr>columns = price_columns,
             rows = [mk_row 20240103 ''AAA'' [(''close'', 11), (''vol'', 500)],
                     mk_row 20240102 ''BBB'' [(''close'', 20), (''vol'', 700)],
                     mk_row 20240102 ''AAA'' [(''close'', 10), (''vol'', 400)]]\<rparr>
      else Inr \<lparr>columns = price_columns, rows = []\<rparr>)"

definition demo_daily_basic :: "string \<Rightarrow> string \<Rightarrow> string \<Rightarrow> string list \<Rightarrow> error + frame" where
  "demo_daily_basic code sd ed fs =
     (let cols = filter (\<lambda>f. f \<noteq> ''trade_date'' \<and> f \<noteq> ''ts_code'') fs in
      if code = ''AAA'' then
        Inr \<lparr>columns = cols,
             rows = [mk_row 20240103 ''AAA'' [(''total_mv'', 3100), (''pb'', 2)],
                     mk_row 20240102 ''AAA'' [(''total_mv'', 3000), (''pb'', 2)]]\<rparr>
      else if code = ''BBB'' then
        Inr \<lparr>columns = cols,
             rows = [mk_row 20240102 ''BBB'' [(''total_mv'', 800), (''pb'', 1)]]\<rparr>
      else if code = ''AAA,BBB'' then
        Inr \<lparr>columns = cols,
             rows = [mk_row 20240103 ''AAA'' [(''total_mv'', 3100), (''pb'', 2)],
                     mk_row 20240102 ''BBB'' [(''total_mv'', 800), (''pb'', 1)],
                     mk_row 20240102 ''AAA'' [(''total_mv'', 3000), (''pb'', 2)]]\<rparr>
      else Inr \<lparr>columns = cols, rows = []\<rparr>)"

definition demo_index_daily :: "string \<Rightarrow> string \<Rightarrow> string \<Rightarrow> error + frame" where
  "demo_index_daily code sd ed =
     (if code = ''000016.SH'' then
        Inr \<lparr>columns = [''close'', ''pct_chg''],
             rows = [mk_row 20240104 ''000016.SH'' [(''pct_chg'', 2)],
                     mk_row 20240103 ''000016.SH'' [(''pct_chg'', - 1)],
                     mk_row 20240102 ''000016.SH'' [(''pct_chg'', 1 / 2)]]\<rparr>
      else Inr \<lparr>columns = [''close'', ''pct_chg''], rows = []\<rparr>)"

definition demo_handler :: handler where
  "demo_handler =
     \<lparr>start_date = ''20240101'', end_date = ''20240105'', frequency = ''D'',
      pro = \<lparr>daily = demo_daily, daily_basic = demo_daily_basic,
             index_daily = demo_index_daily\<rparr>\<rparr>"

text \<open>The wide tables the four fetchers return for \<open>AAA\<close> and \<open>BBB\<close>.\<close>

definition demo_wide_close :: wide where
  "demo_wide_close = \<lparr>wcolumns = [(''AAA'', ''Close''), (''BBB'', ''Close'')],
         wrows = [(20240102, [Some 10, Some 20]), (20240103, [Some 11, None])]\<rparr>"

definition demo_wide_mv :: wide where
  "demo_wide_mv = \<lparr>wcolumns = [(''AAA'', ''total_mv''), (''BBB'', ''total_mv'')],
         wrows = [(20240102, [Some 3000, Some 800]), (20240103, [Some 3100, None])]\<rparr>"

text \<open>Two long tables of the shape the combined requests return, and one in which the
  provider repeats a (date, symbol) pair.\<close>

definition demo_long :: frame where
  "demo_long =
     \<lparr>columns = price_columns,
      rows = [mk_row 20240103 ''AAA'' [(''close'', 11), (''vol'', 500)],
              mk_row 20240102 ''BBB'' [(''close'', 20), (''vol'', 700)],
              mk_row 20240102 ''AAA'' [(''close'', 10), (''vol'', 400)]]\<rparr>"

definition demo_long_mv :: frame where
  "demo_long_mv =
     \<lparr>columns = [''total_mv''],
      rows = [mk_row 20240103 ''AAA'' [(''total_mv'', 3100), (''pb'', 2)],
              mk_row 20240102 ''BBB'' [(''total_mv'', 800), (''pb'', 1)],
              mk_row 20240102 ''AAA'' [(''total_mv'', 3000), (''pb'', 2)]]\<rparr>"


text \<open>The per-symbol answers for \<open>AAA\<close> and \<open>BBB\<close> as the sequential loops collect them,
  and their concatenation.\<close>

definition demo_all_data :: "frame list" where
  "demo_all_data =
     [\<lparr>columns = price_columns,
       rows = [mk_row 20240103 ''AAA'' [(''close'', 11), (''vol'', 500)],
               mk_row 20240102 ''AAA'' [(''close'', 10), (''vol'', 400)]]\<rparr>,
      \<lparr>columns = price_columns,
       rows = [mk_row 20240102 ''BBB'' [(''close'', 20), (''vol'', 700)]]\<rparr>]"

definition demo_combined :: frame where
  "demo_combined =
     \<lparr>columns = price_columns,
      rows = [mk_row 20240103 ''AAA'' [(''close'', 11), (''vol'', 500)],
              mk_row 20240102 ''AAA'' [(''close'', 10), (''vol'', 400)],
              mk_row 20240102 ''BBB'' [(''close'', 20), (''vol'', 700)]]\<rparr>"

definition demo_all_data_mv :: "frame list" where
  "demo_all_data_mv =
     [\<lparr>columns = [''total_mv''],
       rows = [mk_row 20240103 ''AAA'' [(''total_mv'', 3100), (''pb'', 2)],
               mk_row 20240102 ''AAA'' [(''total_mv'', 3000), (''pb'', 2)]]\<rparr>,
      \<lparr>columns = [''total_mv''],
       rows = [mk_row 20240102 ''BBB'' [(''total_mv'', 800), (''pb'', 1)]]\<rparr>]"

definition demo_combined_mv :: frame where
  "demo_combined_mv =
     \<lparr>columns = [''total_mv''],
      rows = [mk_row 20240103 ''AAA'' [(''total_mv'', 3100), (''pb'', 2)],
              mk_row 20240102 ''AAA'' [(''total_mv'', 3000), (''pb'', 2)],
              mk_row 20240102 ''BBB'' [(''total_mv'', 800), (''pb'', 1)]]\<rparr>"

text \<open>The rows of \<open>demo_long\<close> in an order that shows \<open>BBB\<close> first.\<close>

definition demo_long_reordered :: frame where
  "demo_long_reordered =
     \<lparr>columns = price_columns,
      rows = [mk_row 20240102 ''BBB'' [(''close'', 20), (''vol'', 700)],
              mk_row 20240103 ''AAA'' [(''close'', 11), (''vol'', 500)],
              mk_row 20240102 ''AAA'' [(''close'', 10), (''vol'', 400)]]\<rparr>"

text \<open>A long table in which \<open>AAA\<close> repeats a date while \<open>BBB\<close> has other dates.\<close>

definition dup_two_symbols :: frame where
  "dup_two_symbols =
     \<lparr>columns = price_columns,
      rows = [mk_row 20240102 ''AAA'' [(''close'', 10)],
              mk_row 20240102 ''AAA'' [(''close'', 12)],
              mk_row 20240102 ''BBB'' [(''close'', 20)],
              mk_row 20240103 ''BBB'' [(''close'', 21)]]\<rparr>"

section \<open>Notions used in the statements\<close>

text \<open>The series of one symbol and one column, as line 103 extracts it, and what the
  dictionary holds under a key.\<close>

definition symbol_series :: "frame \<Rightarrow> string \<Rightarrow> string \<Rightarrow> (date \<times> float option) list" where
  "symbol_series df stock field =
     map (\<lambda>r. (trade_date r, cells r field)) (filter (\<lambda>r. ts_code r = stock) (rows df))"

definition selected :: "frame \<Rightarrow> string \<times> string \<Rightarrow> selection" where
  "selected df k =
     (if count_list (columns df) (snd k) = 1 then Series (symbol_series df (fst k) (snd k))
      else SubFrame)"

text \<open>The value a date-indexed series holds at a date: NaN where it has no entry.\<close>

definition value_at :: "(date \<times> float option) list \<Rightarrow> date \<Rightarrow> float option" where
  "value_at s d = (case map_of s d of None \<Rightarrow> None | Some v \<Rightarrow> v)"

text \<open>What the loop of lines 77-86 (and 176-184) collects: the answer of every symbol, in
  the order of the list and stamped with the symbol, or the first exception.\<close>

fun answers :: "(string \<Rightarrow> error + frame) \<Rightarrow> string list \<Rightarrow> error + frame list" where
  "answers call [] = Inr []"
| "answers call (stock # rest) =
     (case call stock of
        Inl e \<Rightarrow> Inl e
      | Inr df \<Rightarrow>
          (case answers call rest of
             Inl e \<Rightarrow> Inl e
           | Inr dfs \<Rightarrow> Inr (set_ts_code df stock # dfs)))"

text \<open>Two long tables that hold the same data: the same columns, the same rows in any
  order, the symbols first seen in the same order, and one row at most for a date and a
  symbol.\<close>

definition same_long_table :: "frame \<Rightarrow> frame \<Rightarrow> bool" where
  "same_long_table a b \<longleftrightarrow>
     set (columns a) = set (columns b) \<and>
     mset (rows a) = mset (rows b) \<and>
     unique (map ts_code (rows a)) = unique (map ts_code (rows b)) \<and>
     distinct (map (\<lambda>r. (trade_date r, ts_code r)) (rows a))"

section \<open>Properties\<close>

subsection \<open>The field mapping and the fetch loops\<close>

lemma mapped_fields_unknown:
  "\<exists>f\<in>set flds. field_mapping f = None \<Longrightarrow>
   \<exists>f\<in>set flds. field_mapping f = None \<and> mapped_fields flds = Inl (KeyError f)"
proof (induction flds)
  case Nil
  then show ?case by simp
next
  case (Cons a flds)
  show ?case
  proof (cases "field_mapping a")
    case None
    then show ?thesis by auto
  next
    case (Some c)
    with Cons.prems have "\<exists>f\<in>set flds. field_mapping f = None" by auto
    from Cons.IH [OF this] obtain f where "f \<in> set flds" "field_mapping f = None"
      "mapped_fields flds = Inl (KeyError f)" by blast
    with Some show ?thesis by auto
  qed
qed

lemma mapped_fields_known:
  "mapped_fields flds = Inr mapped \<Longrightarrow> map field_mapping flds = map Some mapped"
  by (induction flds arbitrary: mapped) (auto split: option.splits sum.splits)

lemma daily_basic_loop_trace_prefix:
  "\<exists>tr'. fst (daily_basic_loop h sl fwd stocks all_data tr) = tr @ tr'"
proof (induction stocks arbitrary: all_data tr)
  case Nil
  then show ?case by simp
next
  case (Cons stock rest)
  show ?case
  proof (cases "daily_basic (pro h) stock (start_date h) (end_date h) fwd")
    case (Inl e)
    then show ?thesis by (simp add: Let_def)
  next
    case (Inr df)
    obtain tr' where "fst (daily_basic_loop h sl fwd rest (all_data @ [set_ts_code df stock])
        ((tr @ [Call_daily_basic stock (start_date h) (end_date h) fwd]) @
         (if sl > 0 then [Sleep sl] else []))) =
        ((tr @ [Call_daily_basic stock (start_date h) (end_date h) fwd]) @
         (if sl > 0 then [Sleep sl] else [])) @ tr'"
      using Cons.IH by blast
    with Inr show ?thesis by (simp add: Let_def)
  qed
qed

lemma daily_basic_loop_first_call:
  "\<exists>tr'. fst (daily_basic_loop h sl fwd (stock # rest) all_data tr) =
     tr @ Call_daily_basic stock (start_date h) (end_date h) fwd # tr'"
proof (cases "daily_basic (pro h) stock (start_date h) (end_date h) fwd")
  case (Inl e)
  then show ?thesis by (simp add: Let_def)
next
  case (Inr df)
  obtain tr' where "fst (daily_basic_loop h sl fwd rest (all_data @ [set_ts_code df stock])
        ((tr @ [Call_daily_basic stock (start_date h) (end_date h) fwd]) @
         (if sl > 0 then [Sleep sl] else []))) =
        ((tr @ [Call_daily_basic stock (start_date h) (end_date h) fwd]) @
         (if sl > 0 then [Sleep sl] else [])) @ tr'"
    using daily_basic_loop_trace_prefix by blast
  with Inr show ?thesis by (simp add: Let_def)
qed

subsection \<open>The empty symbol list\<close>

text \<open>
  Claim C10. For the empty symbol list the sequential fetchers raise: no call is made, the
  list of per-symbol answers is empty, and \<open>pd.concat\<close> refuses it. The price fetcher
  raises in any case (the \<open>KeyError\<close> of an unknown field comes first); with known fields
  it is the \<open>ValueError\<close> of \<open>pd.concat\<close>, as it always is for the factor fetcher.
  Neither returns an empty table or a marker.
\<close>

theorem empty_symbol_list_raises:
  "(\<exists>e. snd (get_prices_from_tushare h [] flds sleep_time) = Inl e) \<and>
   (\<forall>mapped. mapped_fields flds = Inr mapped \<longrightarrow>
      get_prices_from_tushare h [] flds sleep_time =
        ([Print Start_prices, Print Fetch_done], Inl (ValueError ''No objects to concatenate''))) \<and>
   get_factors_from_tushare h [] factors sleep_time =
     ([Print Start_factors, Print Fetch_done], Inl (ValueError ''No objects to concatenate''))"
  by (cases "mapped_fields flds")
     (simp_all add: get_prices_from_tushare_def get_factors_from_tushare_def pd_concat_def)

theorem empty_symbol_list_raises_witness:
  "mapped_fields [''close''] = Inr [''Close''] \<and>
   get_prices_from_tushare demo_handler [] [''close''] 0 =
     ([Print Start_prices, Print Fetch_done], Inl (ValueError ''No objects to concatenate''))"
  using empty_symbol_list_raises [of demo_handler "[''close'']" 0]
  by (simp add: field_mapping_def)

subsection \<open>Evaluating the fetchers on the concrete client\<close>

lemmas pandas_defs = pd_concat_def set_ts_code_def mk_row_def unique_def
      reshape_factors_def reshape_prices_def select_columns_def rename_columns_def rename_label_def
      new_structure_df_def new_structure_data_def
      loc_symbol_field_def DataFrame_def union_indexes_def union_index_def reindex_def sort_index_def

lemmas demo_defs = demo_handler_def demo_daily_def demo_daily_basic_def price_columns_def

lemma demo_prices_sequential:
  "snd (get_prices_from_tushare demo_handler [''AAA'', ''BBB''] [''close''] 0) = Inr demo_wide_close"
  by (simp add: get_prices_from_tushare_def field_mapping_def demo_defs pandas_defs Let_def demo_wide_close_def)

lemma demo_prices_parallel:
  "snd (get_prices_from_tushare_parallel demo_handler [''AAA'', ''BBB''] [''close'']) = Inr (Some demo_wide_close)"
  by (simp add: get_prices_from_tushare_parallel_def field_mapping_def demo_defs pandas_defs Let_def demo_wide_close_def)

lemma demo_factors_sequential:
  "snd (get_factors_from_tushare demo_handler [''AAA'', ''BBB''] [''total_mv''] 0) = Inr demo_wide_mv"
  by (simp add: get_factors_from_tushare_def field_mapping_def demo_defs pandas_defs Let_def demo_wide_mv_def)

lemma demo_factors_parallel:
  "snd (get_factors_from_tushare_parallel demo_handler [''AAA'', ''BBB''] [''total_mv'']) = Inr (Some demo_wide_mv)"
  by (simp add: get_factors_from_tushare_parallel_def field_mapping_def demo_defs pandas_defs Let_def demo_wide_mv_def)


subsection \<open>Unknown field names\<close>

text \<open>
  Claim C6, as stated: every fetch operation raises before any remote call when a
  requested name is not in the normalization mapping. This fails for the factor fetchers,
  which have no mapping at all: \<open>get_factors_from_tushare\<close> asked for the factor
  \<open>bogus\<close> sends the request and, on the concrete client, returns a table.
\<close>

theorem factor_fetch_sends_unknown_field:
  "field_mapping ''bogus'' = None \<and>
   get_factors_from_tushare demo_handler [''AAA''] [''bogus''] 0 =
     ([Print Start_factors,
       Call_daily_basic ''AAA'' ''20240101'' ''20240105'' [''bogus'', ''trade_date''],
       Print Fetch_done],
      Inr \<lparr>wcolumns = [(''AAA'', ''bogus'')],
           wrows = [(20240102, [None]), (20240103, [None])]\<rparr>)"
  by (simp add: field_mapping_def get_factors_from_tushare_def demo_handler_def
      demo_daily_basic_def Let_def pd_concat_def set_ts_code_def mk_row_def unique_def
      reshape_factors_def select_columns_def new_structure_df_def new_structure_data_def
      loc_symbol_field_def DataFrame_def union_indexes_def reindex_def sort_index_def)


text \<open>
  Claim C6, amended. When a requested field is not in \<open>field_mapping\<close>, both price
  fetchers raise \<open>KeyError\<close> with an empty trace: nothing was printed and no remote call
  was issued. The factor fetchers consult no mapping: whatever the names, the sequential
  one calls \<open>daily_basic\<close> for the first symbol, and the batch one for the joined list,
  with the names as given.
\<close>

theorem unknown_price_field_raises_before_call:
  assumes "\<exists>f\<in>set flds. field_mapping f = None"
  shows "(\<exists>f\<in>set flds. field_mapping f = None \<and>
            get_prices_from_tushare h stock_list flds sleep_time = ([], Inl (KeyError f)) \<and>
            get_prices_from_tushare_parallel h stock_list flds = ([], Inl (KeyError f))) \<and>
         (\<exists>tr. fst (get_factors_from_tushare h (stock # rest) flds sleep_time) =
            Print Start_factors #
            Call_daily_basic stock (start_date h) (end_date h) (flds @ [''trade_date'']) # tr) \<and>
         (\<exists>tr. fst (get_factors_from_tushare_parallel h stock_list flds) =
            Print Start_factors #
            Call_daily_basic (join_comma stock_list) (start_date h) (end_date h)
              (flds @ [''trade_date'', ''ts_code'']) # tr)"
proof -
  from mapped_fields_unknown [OF assms] obtain f where
    f: "f \<in> set flds" "field_mapping f = None" "mapped_fields flds = Inl (KeyError f)"
    by blast
  then have A: "\<exists>f\<in>set flds. field_mapping f = None \<and>
            get_prices_from_tushare h stock_list flds sleep_time = ([], Inl (KeyError f)) \<and>
            get_prices_from_tushare_parallel h stock_list flds = ([], Inl (KeyError f))"
    by (auto simp: get_prices_from_tushare_def get_prices_from_tushare_parallel_def)
  obtain tr' where tr': "fst (daily_basic_loop h sleep_time (flds @ [''trade_date''])
        (stock # rest) [] [Print Start_factors]) =
      [Print Start_factors] @
      Call_daily_basic stock (start_date h) (end_date h) (flds @ [''trade_date'']) # tr'"
    using daily_basic_loop_first_call by blast
  have B: "\<exists>tr. fst (get_factors_from_tushare h (stock # rest) flds sleep_time) =
            Print Start_factors #
            Call_daily_basic stock (start_date h) (end_date h) (flds @ [''trade_date'']) # tr"
  proof (cases "daily_basic_loop h sleep_time (flds @ [''trade_date''])
        (stock # rest) [] [Print Start_factors]")
    case (Pair t r)
    with tr' show ?thesis
      by (cases r) (simp_all add: get_factors_from_tushare_def Let_def del: daily_basic_loop.simps)
  qed
  have C: "\<exists>tr. fst (get_factors_from_tushare_parallel h stock_list flds) =
            Print Start_factors #
            Call_daily_basic (join_comma stock_list) (start_date h) (end_date h)
              (flds @ [''trade_date'', ''ts_code'']) # tr"
    by (simp add: get_factors_from_tushare_parallel_def Let_def split: sum.splits)
  from A B C show ?thesis by blast
qed

theorem unknown_price_field_raises_before_call_witness:
  "(\<exists>f\<in>set [''close'', ''turnover'']. field_mapping f = None) \<and>
   get_prices_from_tushare demo_handler [''AAA''] [''close'', ''turnover''] 0 =
     ([], Inl (KeyError ''turnover'')) \<and>
   get_prices_from_tushare_parallel demo_handler [''AAA''] [''close'', ''turnover''] =
     ([], Inl (KeyError ''turnover''))"
proof -
  have h: "\<exists>f\<in>set [''close'', ''turnover'']. field_mapping f = None"
    by (simp add: field_mapping_def)
  from unknown_price_field_raises_before_call [OF h, of demo_handler "[''AAA'']" 0] show ?thesis
    using h by (auto simp: field_mapping_def)
qed


subsection \<open>The empty answer of the batch fetchers\<close>

text \<open>
  Claim C7. When the batched call is issued and answers with no row, both batch fetchers
  return \<open>None\<close> (no exception) after printing the no-data line. This is the only path
  that does so: a batch fetcher returns \<open>None\<close> exactly when its call was issued and
  answered with no row, and it prints the no-data line exactly on the runs that return
  \<open>None\<close>.
\<close>

theorem batch_empty_answer_returns_None:
  "(Call_daily (join_comma stock_list) (start_date h) (end_date h)
       \<in> set (fst (get_prices_from_tushare_parallel h stock_list flds)) \<longrightarrow>
    daily (pro h) (join_comma stock_list) (start_date h) (end_date h) = Inr df \<longrightarrow>
    rows df = [] \<longrightarrow>
    get_prices_from_tushare_parallel h stock_list flds =
      ([Print Start_prices, Call_daily (join_comma stock_list) (start_date h) (end_date h),
        Print No_data], Inr None)) \<and>
   (daily_basic (pro h) (join_comma stock_list) (start_date h) (end_date h)
       (factors @ [''trade_date'', ''ts_code'']) = Inr df' \<longrightarrow>
    rows df' = [] \<longrightarrow>
    get_factors_from_tushare_parallel h stock_list factors =
      ([Print Start_factors,
        Call_daily_basic (join_comma stock_list) (start_date h) (end_date h)
          (factors @ [''trade_date'', ''ts_code'']),
        Print No_data], Inr None)) \<and>
   (Print No_data \<in> set (fst (get_prices_from_tushare_parallel h stock_list flds)) \<longleftrightarrow>
      snd (get_prices_from_tushare_parallel h stock_list flds) = Inr None) \<and>
   (Print No_data \<in> set (fst (get_factors_from_tushare_parallel h stock_list factors)) \<longleftrightarrow>
      snd (get_factors_from_tushare_parallel h stock_list factors) = Inr None) \<and>
   (snd (get_prices_from_tushare_parallel h stock_list flds) = Inr None \<longleftrightarrow>
      (\<exists>mapped answer. mapped_fields flds = Inr mapped \<and>
         daily (pro h) (join_comma stock_list) (start_date h) (end_date h) = Inr answer \<and>
         rows answer = [])) \<and>
   (snd (get_factors_from_tushare_parallel h stock_list factors) = Inr None \<longleftrightarrow>
      (\<exists>answer. daily_basic (pro h) (join_comma stock_list) (start_date h) (end_date h)
         (factors @ [''trade_date'', ''ts_code'']) = Inr answer \<and> rows answer = []))"
proof (intro conjI)
  show "snd (get_prices_from_tushare_parallel h stock_list flds) = Inr None \<longleftrightarrow>
      (\<exists>mapped answer. mapped_fields flds = Inr mapped \<and>
         daily (pro h) (join_comma stock_list) (start_date h) (end_date h) = Inr answer \<and>
         rows answer = [])"
    by (auto simp: get_prices_from_tushare_parallel_def Let_def split: sum.splits if_splits)
  show "snd (get_factors_from_tushare_parallel h stock_list factors) = Inr None \<longleftrightarrow>
      (\<exists>answer. daily_basic (pro h) (join_comma stock_list) (start_date h) (end_date h)
         (factors @ [''trade_date'', ''ts_code'']) = Inr answer \<and> rows answer = [])"
    by (auto simp: get_factors_from_tushare_parallel_def Let_def split: sum.splits if_splits)
qed (auto simp: get_prices_from_tushare_parallel_def get_factors_from_tushare_parallel_def
      Let_def split: sum.splits)

theorem batch_empty_answer_returns_None_witness:
  "get_prices_from_tushare_parallel demo_handler [''ZZZ''] [''close''] =
      ([Print Start_prices, Call_daily ''ZZZ'' ''20240101'' ''20240105'', Print No_data],
       Inr None) \<and>
   get_factors_from_tushare_parallel demo_handler [''ZZZ''] [''total_mv''] =
      ([Print Start_factors,
        Call_daily_basic ''ZZZ'' ''20240101'' ''20240105''
          [''total_mv'', ''trade_date'', ''ts_code''],
        Print No_data], Inr None) \<and>
   snd (get_prices_from_tushare_parallel demo_handler [''AAA'', ''BBB''] [''close'']) =
      Inr (Some demo_wide_close) \<and>
   \<not> (\<exists>mapped answer. mapped_fields [''close''] = Inr mapped \<and>
         daily (pro demo_handler) (join_comma [''AAA'', ''BBB'']) (start_date demo_handler)
           (end_date demo_handler) = Inr answer \<and> rows answer = []) \<and>
   Print No_data \<notin> set (fst (get_prices_from_tushare_parallel demo_handler
      [''AAA'', ''BBB''] [''close'']))"
proof -
  have a: "Call_daily (join_comma [''ZZZ'']) (start_date demo_handler) (end_date demo_handler)
       \<in> set (fst (get_prices_from_tushare_parallel demo_handler [''ZZZ''] [''close'']))"
    by (simp add: get_prices_from_tushare_parallel_def field_mapping_def demo_handler_def
        demo_daily_def Let_def)
  have b: "daily (pro demo_handler) (join_comma [''ZZZ'']) (start_date demo_handler)
      (end_date demo_handler) = Inr \<lparr>columns = price_columns, rows = []\<rparr>"
    by (simp add: demo_handler_def demo_daily_def)
  have c: "daily_basic (pro demo_handler) (join_comma [''ZZZ'']) (start_date demo_handler)
      (end_date demo_handler) ([''total_mv''] @ [''trade_date'', ''ts_code'']) =
      Inr \<lparr>columns = [''total_mv''], rows = []\<rparr>"
    by (simp add: demo_handler_def demo_daily_basic_def)
  from batch_empty_answer_returns_None [where stock_list = "[''ZZZ'']" and h = demo_handler and flds = "[''close'']"
      and df = "\<lparr>columns = price_columns, rows = []\<rparr>"
      and factors = "[''total_mv'']" and df' = "\<lparr>columns = [''total_mv''], rows = []\<rparr>"] a b c
  have z: "get_prices_from_tushare_parallel demo_handler [''ZZZ''] [''close''] =
      ([Print Start_prices, Call_daily ''ZZZ'' ''20240101'' ''20240105'', Print No_data],
       Inr None) \<and>
   get_factors_from_tushare_parallel demo_handler [''ZZZ''] [''total_mv''] =
      ([Print Start_factors,
        Call_daily_basic ''ZZZ'' ''20240101'' ''20240105''
          [''total_mv'', ''trade_date'', ''ts_code''],
        Print No_data], Inr None)"
    by (simp add: demo_handler_def)
  have n: "snd (get_prices_from_tushare_parallel demo_handler [''AAA'', ''BBB''] [''close'']) \<noteq>
      Inr None" by (simp add: demo_prices_parallel)
  from batch_empty_answer_returns_None [where stock_list = "[''AAA'', ''BBB'']" and h = demo_handler and flds = "[''close'']"] n
  have "\<not> (\<exists>mapped answer. mapped_fields [''close''] = Inr mapped \<and>
         daily (pro demo_handler) (join_comma [''AAA'', ''BBB'']) (start_date demo_handler)
           (end_date demo_handler) = Inr answer \<and> rows answer = []) \<and>
   Print No_data \<notin> set (fst (get_prices_from_tushare_parallel demo_handler
      [''AAA'', ''BBB''] [''close'']))"
    by blast
  with z demo_prices_parallel show ?thesis by blast
qed


subsection \<open>The benchmark net value\<close>

lemma length_cumprod_from: "length (cumprod_from acc xs) = length xs"
  by (induction acc xs rule: cumprod_from.induct) simp_all

text \<open>
  Claim C2 says that the net values obey \<open>value[i] = value[i-1] * (1 + pct_chg[i]/100)\<close>
  for every \<open>i > 0\<close>, and that the changes 0.5, -1.0, 2.0 give 1.0, 0.99, 1.0098. The code
  takes the cumulative product of all the factors, that of the first day included, and
  then overwrites the first value only. On the scenario it returns 1, 0.99495 and
  1.014849: the second value is \<open>1.005 * 0.99\<close>, not \<open>1.0 * 0.99\<close>.
\<close>

theorem benchmark_net_value_scenario:
  "snd (get_index_prices_from_tushare demo_handler ''000016.SH'') =
     Inr [(20240102, ''000016.SH'', Some 1),
          (20240103, ''000016.SH'', Some (19899 / 20000)),
          (20240104, ''000016.SH'', Some (1014849 / 1000000))] \<and>
   snd (get_index_prices_from_tushare demo_handler ''000016.SH'') \<noteq>
     Inr [(20240102, ''000016.SH'', Some 1),
          (20240103, ''000016.SH'', Some (99 / 100)),
          (20240104, ''000016.SH'', Some (10098 / 10000))]"
  by (simp add: get_index_prices_from_tushare_def demo_handler_def demo_index_daily_def
      mk_row_def cumprod_def Let_def)


text \<open>
  Claim C3. For a non-empty benchmark answer the call returns one net value per row, and
  the first of them, which belongs to the earliest date, is exactly 1, whatever the first
  row's percent change is (even NaN).
\<close>

theorem first_net_value_is_one:
  assumes "index_daily (pro h) index_code (start_date h) (end_date h) = Inr df"
    and "rows df \<noteq> []"
    and "''pct_chg'' \<in> set (columns df)"
  shows "\<exists>out. snd (get_index_prices_from_tushare h index_code) = Inr out \<and>
           length out = length (rows df) \<and>
           snd (snd (hd out)) = Some 1 \<and>
           (\<forall>r\<in>set (rows df). fst (hd out) \<le> trade_date r)"
proof -
  define srt where "srt = sort_key trade_date (rows df)"
  have ne: "srt \<noteq> []" using assms(2) by (auto simp: srt_def dest: arg_cong[where f=length])
  then obtain r0 rest where srt: "srt = r0 # rest" by (cases srt) auto
  have "sorted (map trade_date srt)" by (simp add: srt_def)
  with srt have min: "\<forall>r\<in>set srt. trade_date r0 \<le> trade_date r" by auto
  have set: "set srt = set (rows df)" by (simp add: srt_def)
  define net where "net = cumprod (map (\<lambda>r. map_option (\<lambda>p. 1 + p / 100) (cells r ''pct_chg'')) (r0 # rest))"
  have len: "length net = length srt" by (simp add: net_def cumprod_def length_cumprod_from srt)
  then obtain v0 vs where net: "net = v0 # vs" using srt by (cases net) auto
  define out where "out = map (\<lambda>(r, v). (trade_date r, ts_code r,
                                      if trade_date r = trade_date r0 then Some 1 else v))
                          (zip srt net)"
  have res: "snd (get_index_prices_from_tushare h index_code) = Inr out"
    using assms(1,3) srt [unfolded srt_def]
    by (simp add: get_index_prices_from_tushare_def Let_def out_def net_def srt)
  have "length out = length (rows df)" using len by (simp add: out_def srt_def)
  moreover have "hd out = (trade_date r0, ts_code r0, Some 1)" by (simp add: out_def srt net)
  ultimately show ?thesis using res min set by auto
qed

theorem first_net_value_is_one_witness:
  "\<exists>out. snd (get_index_prices_from_tushare demo_handler ''000016.SH'') = Inr out \<and>
     length out = 3 \<and> snd (snd (hd out)) = Some 1 \<and> fst (hd out) = 20240102"
proof -
  have a: "index_daily (pro demo_handler) ''000016.SH'' (start_date demo_handler) (end_date demo_handler)
     = Inr \<lparr>columns = [''close'', ''pct_chg''],
             rows = [mk_row 20240104 ''000016.SH'' [(''pct_chg'', 2)],
                     mk_row 20240103 ''000016.SH'' [(''pct_chg'', - 1)],
                     mk_row 20240102 ''000016.SH'' [(''pct_chg'', 1 / 2)]]\<rparr>"
    by (simp add: demo_handler_def demo_index_daily_def)
  from first_net_value_is_one [OF a] obtain out where
    o: "snd (get_index_prices_from_tushare demo_handler ''000016.SH'') = Inr out"
      "length out = 3" "snd (snd (hd out)) = Some 1" by auto
  moreover have "fst (hd out) = 20240102"
    using o(1) by (auto simp add: get_index_prices_from_tushare_def demo_handler_def demo_index_daily_def
      mk_row_def cumprod_def Let_def)
  ultimately show ?thesis by blast
qed


subsection \<open>Row order of the wide table\<close>

lemma new_structure_df_sorted:
  "new_structure_df df fs = Inr w \<Longrightarrow> sorted (map fst (wrows w))"
  by (auto simp: new_structure_df_def sort_index_def split: sum.splits)

lemma reshape_prices_sorted:
  "reshape_prices df flds mapped = Inr w \<Longrightarrow> sorted (map fst (wrows w))"
  by (auto simp: reshape_prices_def split: sum.splits dest: new_structure_df_sorted)

lemma reshape_factors_sorted:
  "reshape_factors df factors = Inr w \<Longrightarrow> sorted (map fst (wrows w))"
  by (auto simp: reshape_factors_def split: sum.splits dest: new_structure_df_sorted)

text \<open>
  Claim C5. Whatever the order in which the rows arrived, the wide table returned by each
  of the four fetchers has its rows in ascending date order.
\<close>

theorem wide_rows_sorted_by_date:
  "(snd (get_prices_from_tushare h stock_list flds sleep_time) = Inr w \<longrightarrow>
      sorted (map fst (wrows w))) \<and>
   (snd (get_prices_from_tushare_parallel h stock_list flds) = Inr (Some w) \<longrightarrow>
      sorted (map fst (wrows w))) \<and>
   (snd (get_factors_from_tushare h stock_list factors sleep_time) = Inr w \<longrightarrow>
      sorted (map fst (wrows w))) \<and>
   (snd (get_factors_from_tushare_parallel h stock_list factors) = Inr (Some w) \<longrightarrow>
      sorted (map fst (wrows w)))"
proof (intro conjI impI)
  assume "snd (get_prices_from_tushare h stock_list flds sleep_time) = Inr w"
  then show "sorted (map fst (wrows w))"
    by (auto simp: get_prices_from_tushare_def split: sum.splits prod.splits
        dest: reshape_prices_sorted)
next
  assume "snd (get_prices_from_tushare_parallel h stock_list flds) = Inr (Some w)"
  then show "sorted (map fst (wrows w))"
    by (auto simp: get_prices_from_tushare_parallel_def Let_def split: sum.splits if_splits
        dest: reshape_prices_sorted)
next
  assume "snd (get_factors_from_tushare h stock_list factors sleep_time) = Inr w"
  then show "sorted (map fst (wrows w))"
    by (auto simp: get_factors_from_tushare_def Let_def split: sum.splits prod.splits
        dest: reshape_factors_sorted)
next
  assume "snd (get_factors_from_tushare_parallel h stock_list factors) = Inr (Some w)"
  then show "sorted (map fst (wrows w))"
    by (auto simp: get_factors_from_tushare_parallel_def Let_def split: sum.splits if_splits
        dest: reshape_factors_sorted)
qed


theorem wide_rows_sorted_by_date_witness:
  "snd (get_prices_from_tushare demo_handler [''AAA'', ''BBB''] [''close''] 0) = Inr demo_wide_close \<and>
   snd (get_prices_from_tushare_parallel demo_handler [''AAA'', ''BBB''] [''close'']) =
     Inr (Some demo_wide_close) \<and>
   snd (get_factors_from_tushare demo_handler [''AAA'', ''BBB''] [''total_mv''] 0) = Inr demo_wide_mv \<and>
   snd (get_factors_from_tushare_parallel demo_handler [''AAA'', ''BBB''] [''total_mv'']) =
     Inr (Some demo_wide_mv) \<and>
   sorted (map fst (wrows demo_wide_close)) \<and> sorted (map fst (wrows demo_wide_mv))"
  using wide_rows_sorted_by_date [where h = demo_handler and stock_list = "[''AAA'', ''BBB'']"
      and flds = "[''close'']" and sleep_time = 0 and w = demo_wide_close]
    wide_rows_sorted_by_date [where h = demo_handler and stock_list = "[''AAA'', ''BBB'']"
      and factors = "[''total_mv'']" and sleep_time = 0 and w = demo_wide_mv]
    demo_prices_sequential demo_prices_parallel demo_factors_sequential demo_factors_parallel
  by simp

subsection \<open>First-seen order\<close>

lemma unique_from_cong: "set a = set b \<Longrightarrow> unique_from a xs = unique_from b xs"
proof (induction xs arbitrary: a b)
  case Nil
  show ?case by simp
next
  case (Cons x xs)
  have "set (x # a) = set (x # b)" using Cons.prems by simp
  then have "unique_from (x # a) xs = unique_from (x # b) xs" by (rule Cons.IH)
  moreover have "unique_from a xs = unique_from b xs" using Cons.prems by (rule Cons.IH)
  ultimately show ?case using Cons.prems by simp
qed

lemma set_unique_from: "set (unique_from seen xs) = set xs - set seen"
  by (induction xs arbitrary: seen) auto

lemma distinct_unique_from: "distinct (unique_from seen xs)"
  by (induction xs arbitrary: seen) (auto simp: set_unique_from)

lemma unique_from_append:
  "unique_from seen (xs @ ys) = unique_from seen xs @ unique_from (xs @ seen) ys"
proof (induction xs arbitrary: seen)
  case Nil
  then show ?case by simp
next
  case (Cons x xs)
  show ?case
  proof (cases "x \<in> set seen")
    case True
    then have "set ((x # xs) @ seen) = set (xs @ seen)" by auto
    then have "unique_from ((x # xs) @ seen) ys = unique_from (xs @ seen) ys"
      by (rule unique_from_cong)
    with True Cons.IH [of seen] show ?thesis by simp
  next
    case False
    have "set ((x # xs) @ seen) = set (xs @ x # seen)" by auto
    then have "unique_from ((x # xs) @ seen) ys = unique_from (xs @ x # seen) ys"
      by (rule unique_from_cong)
    with False Cons.IH [of "x # seen"] show ?thesis by simp
  qed
qed

lemma unique_from_distinct:
  "distinct xs \<Longrightarrow> set xs \<inter> set seen = {} \<Longrightarrow> unique_from seen xs = xs"
  by (induction xs arbitrary: seen) auto

lemma set_unique [simp]: "set (unique xs) = set xs"
  by (simp add: unique_def set_unique_from)

lemma distinct_unique [simp]: "distinct (unique xs)"
  by (simp add: unique_def distinct_unique_from)

lemma unique_distinct: "distinct xs \<Longrightarrow> unique xs = xs"
  by (simp add: unique_def unique_from_distinct)

lemma unique_eq_Nil [simp]: "unique xs = [] \<longleftrightarrow> xs = []"
  by (cases xs) (simp_all add: unique_def)

subsection \<open>The dictionary built by the two loops\<close>

lemma dict_set_tagged:
  "dict_set (map (\<lambda>k. (k, g k)) ks) k (g k) =
     map (\<lambda>k. (k, g k)) (ks @ unique_from ks [k])"
  by (induction ks) auto

lemma fields_loop_fold:
  "set fs \<subseteq> set (columns df) \<Longrightarrow>
   fields_loop df stock fs d =
     Inr (fold (\<lambda>f d. dict_set d (stock, f) (selected df (stock, f))) fs d)"
  by (induction fs arbitrary: d)
     (auto simp: loc_symbol_field_def selected_def symbol_series_def count_list_0_iff)

lemma fields_fold_tagged:
  "fold (\<lambda>f d. dict_set d (stock, f) (g (stock, f))) fs (map (\<lambda>k. (k, g k)) ks) =
     map (\<lambda>k. (k, g k)) (ks @ unique_from ks (map (Pair stock) fs))"
proof (induction fs arbitrary: ks)
  case Nil
  then show ?case by simp
next
  case (Cons f fs)
  have "unique_from ks (map (Pair stock) (f # fs)) =
        unique_from ks [(stock, f)] @ unique_from ([(stock, f)] @ ks) (map (Pair stock) fs)"
    using unique_from_append [of ks "[(stock, f)]" "map (Pair stock) fs"] by simp
  moreover have "unique_from ([(stock, f)] @ ks) (map (Pair stock) fs) =
        unique_from (ks @ unique_from ks [(stock, f)]) (map (Pair stock) fs)"
    by (rule unique_from_cong) auto
  ultimately show ?case
    using Cons.IH [of "ks @ unique_from ks [(stock, f)]"]
    by (simp only: fold_simps dict_set_tagged append_assoc)
qed

lemma fields_loop_tagged:
  "set fs \<subseteq> set (columns df) \<Longrightarrow>
   fields_loop df stock fs (map (\<lambda>k. (k, selected df k)) ks) =
     Inr (map (\<lambda>k. (k, selected df k)) (ks @ unique_from ks (map (Pair stock) fs)))"
  by (simp add: fields_loop_fold fields_fold_tagged)

lemma stocks_loop_tagged:
  "set fs \<subseteq> set (columns df) \<Longrightarrow>
   stocks_loop df stocks fs (map (\<lambda>k. (k, selected df k)) ks) =
     Inr (map (\<lambda>k. (k, selected df k)) (ks @ unique_from ks (List.product stocks fs)))"
proof (induction stocks arbitrary: ks)
  case Nil
  then show ?case by simp
next
  case (Cons s stocks)
  let ?A = "map (Pair s) fs"
  have "unique_from ks (List.product (s # stocks) fs) =
        unique_from ks ?A @ unique_from (?A @ ks) (List.product stocks fs)"
    by (simp add: unique_from_append)
  moreover have "unique_from (?A @ ks) (List.product stocks fs) =
        unique_from (ks @ unique_from ks ?A) (List.product stocks fs)"
    by (rule unique_from_cong) (auto simp: set_unique_from)
  ultimately show ?case
    using Cons.IH [OF Cons.prems, of "ks @ unique_from ks ?A"] Cons.prems
    by (simp add: fields_loop_tagged)
qed

lemma new_structure_data_tagged:
  assumes "set fs \<subseteq> set (columns df)"
  shows "new_structure_data df fs =
     Inr (map (\<lambda>k. (k, selected df k))
            (unique (List.product (unique (map ts_code (rows df))) fs)))"
  using stocks_loop_tagged [OF assms, of "unique (map ts_code (rows df))" "[]"]
  by (simp add: new_structure_data_def unique_def)

lemma series_of_SubFrame:
  "SubFrame \<in> set vs \<Longrightarrow>
   series_of vs = Inl (ValueError ''If using all scalar values, you must pass an index'')"
  by (induction vs rule: series_of.induct) (auto split: sum.splits)

lemma series_of_Series: "series_of (map Series ss) = Inr ss"
  by (induction ss) auto

lemma series_of_Inr: "series_of vs = Inr ss \<Longrightarrow> vs = map Series ss"
  by (induction vs arbitrary: ss rule: series_of.induct) (auto split: sum.splits)


subsection \<open>The columns of the wide table\<close>

lemma DataFrame_columns: "DataFrame d = Inr w \<Longrightarrow> wcolumns w = map fst d"
  by (auto simp: DataFrame_def Let_def split: sum.splits)

lemma DataFrame_series:
  "DataFrame d = Inr w \<Longrightarrow> \<exists>ss. series_of (map snd d) = Inr ss"
  by (auto simp: DataFrame_def Let_def split: sum.splits)

lemma rename_mapped:
  "mapped_fields flds = Inr mapped \<Longrightarrow> map (rename_label field_mapping) flds = mapped"
  by (induction flds arbitrary: mapped)
     (auto simp: rename_label_def split: option.splits sum.splits)

lemma set_mapped:
  "mapped_fields flds = Inr mapped \<Longrightarrow>
   set mapped = {c. \<exists>f\<in>set flds. field_mapping f = Some c}"
  by (induction flds arbitrary: mapped) (auto split: option.splits sum.splits)

lemma new_structure_df_columns:
  assumes "columns df = fs" and "new_structure_df df fs = Inr w"
  shows "wcolumns w = List.product (unique (map ts_code (rows df))) fs"
proof -
  let ?U = "unique (map ts_code (rows df))"
  let ?K = "unique (List.product ?U fs)"
  let ?d = "map (\<lambda>k. (k, selected df k)) ?K"
  have d: "new_structure_data df fs = Inr ?d"
    using assms(1) by (intro new_structure_data_tagged) simp
  with assms(2) obtain w0 where w0: "DataFrame ?d = Inr w0" and w: "w = sort_index w0"
    by (auto simp: new_structure_df_def split: sum.splits)
  have cols: "wcolumns w = ?K"
    using DataFrame_columns [OF w0] w by (simp add: sort_index_def comp_def)
  show ?thesis
  proof (cases "?U = []")
    case True
    with cols show ?thesis by (simp add: unique_def)
  next
    case False
    then obtain s where s: "s \<in> set ?U" by (cases ?U) auto
    from DataFrame_series [OF w0] obtain ss where "series_of (map snd ?d) = Inr ss" by blast
    then have "map snd ?d = map Series ss" by (rule series_of_Inr)
    then have noSub: "SubFrame \<notin> set (map snd ?d)" by auto
    have "count_list fs f = 1" if "f \<in> set fs" for f
    proof (rule ccontr)
      assume "count_list fs f \<noteq> 1"
      then have "selected df (s, f) = SubFrame" using assms(1) by (simp add: selected_def)
      moreover have "(s, f) \<in> set ?K" using s that by simp
      ultimately have "SubFrame \<in> set (map snd ?d)" by (force simp: comp_def)
      with noSub show False by contradiction
    qed
    then have "distinct fs" by (simp add: distinct_count_atmost_1 count_mset)
    then have "distinct (List.product ?U fs)" by (simp add: distinct_product)
    then show ?thesis using cols by (simp add: unique_distinct)
  qed
qed

lemma select_columns_Inr:
  "select_columns df flds = Inr sel \<Longrightarrow>
   set flds \<subseteq> set (columns df) \<and> columns sel = flds \<and>
   rows sel = map (\<lambda>r. r\<lparr>cells := cells r |` set flds\<rparr>) (rows df)"
  by (auto simp: select_columns_def find_None_iff split: option.splits)

lemma ts_code_rename [simp]:
  "map ts_code (rows (rename_columns m df)) = map ts_code (rows df)"
  by (simp add: rename_columns_def comp_def)

lemma columns_rename [simp]:
  "columns (rename_columns m df) = map (rename_label m) (columns df)"
  by (simp add: rename_columns_def)

text \<open>
  Claim C4. Whenever the reshaping step produces a wide table from a long table, its
  columns are the pairs (symbol, canonical field), symbol-major: the symbols that occur
  in some row of the long table, in first-seen order, each with the requested fields in
  the caller's order. As a set these are exactly the pairs of a symbol having a row and
  the canonical name of a requested field; a symbol without a row gets no column. The
  price fetchers rename through \<open>field_mapping\<close>, the factor fetchers keep the names.
\<close>

theorem wide_columns_are_symbols_times_fields:
  "(mapped_fields flds = Inr mapped \<longrightarrow> reshape_prices df flds mapped = Inr w \<longrightarrow>
      map field_mapping flds = map Some mapped \<and>
      wcolumns w = List.product (unique (map ts_code (rows df))) mapped \<and>
      set (wcolumns w) =
        {(s, c). (\<exists>r\<in>set (rows df). ts_code r = s) \<and> (\<exists>f\<in>set flds. field_mapping f = Some c)}) \<and>
   (reshape_factors df factors = Inr w' \<longrightarrow>
      wcolumns w' = List.product (unique (map ts_code (rows df))) factors \<and>
      set (wcolumns w') = {(s, f). (\<exists>r\<in>set (rows df). ts_code r = s) \<and> f \<in> set factors})"
proof (intro conjI impI)
  assume m: "mapped_fields flds = Inr mapped" and r: "reshape_prices df flds mapped = Inr w"
  from m show "map field_mapping flds = map Some mapped" by (rule mapped_fields_known)
  from r obtain sel where sel: "select_columns df flds = Inr sel"
    and n: "new_structure_df (rename_columns field_mapping sel) mapped = Inr w"
    by (auto simp: reshape_prices_def split: sum.splits)
  note S = select_columns_Inr [OF sel]
  have c: "columns (rename_columns field_mapping sel) = mapped"
    using S rename_mapped [OF m] by simp
  have t: "map ts_code (rows (rename_columns field_mapping sel)) = map ts_code (rows df)"
    using S by (simp add: comp_def)
  from new_structure_df_columns [OF c n]
  show P: "wcolumns w = List.product (unique (map ts_code (rows df))) mapped"
    by (simp only: t)
  show "set (wcolumns w) =
        {(s, c). (\<exists>r\<in>set (rows df). ts_code r = s) \<and> (\<exists>f\<in>set flds. field_mapping f = Some c)}"
    unfolding P using set_mapped [OF m] by auto
next
  assume r: "reshape_factors df factors = Inr w'"
  then obtain sel where sel: "select_columns df factors = Inr sel"
    and n: "new_structure_df sel factors = Inr w'"
    by (auto simp: reshape_factors_def split: sum.splits)
  note S = select_columns_Inr [OF sel]
  have t: "map ts_code (rows sel) = map ts_code (rows df)"
    using S by (simp add: comp_def)
  have c: "columns sel = factors" using S by simp
  from new_structure_df_columns [OF c n]
  show P: "wcolumns w' = List.product (unique (map ts_code (rows df))) factors"
    by (simp only: t)
  show "set (wcolumns w') = {(s, f). (\<exists>r\<in>set (rows df). ts_code r = s) \<and> f \<in> set factors}"
    unfolding P by auto
qed


lemma demo_reshape_prices:
  "reshape_prices demo_long [''close''] [''Close''] = Inr demo_wide_close"
  by (simp add: demo_long_def field_mapping_def price_columns_def pandas_defs Let_def
      demo_wide_close_def)

lemma demo_reshape_factors:
  "reshape_factors demo_long_mv [''total_mv''] = Inr demo_wide_mv"
  by (simp add: demo_long_mv_def field_mapping_def pandas_defs Let_def demo_wide_mv_def)

theorem wide_columns_are_symbols_times_fields_witness:
  "mapped_fields [''close''] = Inr [''Close''] \<and>
   reshape_prices demo_long [''close''] [''Close''] = Inr demo_wide_close \<and>
   reshape_factors demo_long_mv [''total_mv''] = Inr demo_wide_mv \<and>
   wcolumns demo_wide_close = List.product (unique (map ts_code (rows demo_long))) [''Close''] \<and>
   wcolumns demo_wide_mv = List.product (unique (map ts_code (rows demo_long_mv))) [''total_mv'']"
proof -
  have m: "mapped_fields [''close''] = Inr [''Close'']" by (simp add: field_mapping_def)
  from wide_columns_are_symbols_times_fields [where flds = "[''close'']" and mapped = "[''Close'']"
      and df = demo_long and w = demo_wide_close]
    wide_columns_are_symbols_times_fields [where df = demo_long_mv and factors = "[''total_mv'']"
      and w' = demo_wide_mv]
    m demo_reshape_prices demo_reshape_factors
  show ?thesis by simp
qed

subsection \<open>The alignment of the series\<close>


lemma reindex_length: "reindex s ix = Inr vs \<Longrightarrow> length vs = length ix"
  by (auto simp: reindex_def split: if_splits dest: arg_cong [where f = length])



text \<open>With distinct labels the dictionary holds one series per key, and the block is the
  alignment of these series followed by the sort.\<close>

lemma new_structure_df_distinct:
  assumes "columns df = fs" and "distinct fs"
  defines "K \<equiv> List.product (unique (map ts_code (rows df))) fs"
  defines "ss \<equiv> map (\<lambda>k. symbol_series df (fst k) (snd k)) K"
  defines "ix \<equiv> union_indexes (map (map fst) ss)"
  shows "new_structure_df df fs =
     (case reindex_all ss ix of
        Inl e \<Rightarrow> Inl e
      | Inr vss \<Rightarrow>
          Inr (sort_index \<lparr>wcolumns = K,
                 wrows = map (\<lambda>i. (ix ! i, map (\<lambda>vs. vs ! i) vss)) [0..<length ix]\<rparr>))"
proof -
  let ?U = "unique (map ts_code (rows df))"
  have "distinct (List.product ?U fs)" using assms(2) by (simp add: distinct_product)
  then have K: "unique (List.product ?U fs) = K" by (simp add: unique_distinct K_def)
  let ?d = "map (\<lambda>k. (k, selected df k)) K"
  have d: "new_structure_data df fs = Inr ?d"
    using new_structure_data_tagged [of fs df] assms(1) K by simp
  have "selected df k = Series (symbol_series df (fst k) (snd k))" if "k \<in> set K" for k
  proof -
    from that have "snd k \<in> set fs" by (auto simp: K_def)
    with assms(1,2) have "count_list (columns df) (snd k) = 1"
      by (simp add: distinct_count_atmost_1 count_mset)
    then show ?thesis by (simp add: selected_def)
  qed
  then have "map snd ?d = map Series ss" by (simp add: ss_def comp_def)
  then have so: "series_of (map snd ?d) = Inr ss" by (simp only: series_of_Series)
  have f: "map fst ?d = K" by (simp add: comp_def)
  have "DataFrame ?d =
     (case reindex_all ss ix of
        Inl e \<Rightarrow> Inl e
      | Inr vss \<Rightarrow>
          Inr \<lparr>wcolumns = K,
               wrows = map (\<lambda>i. (ix ! i, map (\<lambda>vs. vs ! i) vss)) [0..<length ix]\<rparr>)"
    unfolding DataFrame_def so f ix_def by (simp add: Let_def)
  with d show ?thesis
    by (simp add: new_structure_df_def split: sum.splits)
qed

lemma dates_symbol_series [simp]:
  "map fst (symbol_series df s f) = map trade_date (filter (\<lambda>r. ts_code r = s) (rows df))"
  by (simp add: symbol_series_def comp_def)



subsection \<open>Duplicate (date, symbol) rows\<close>

lemma symbol_dates_cells_update [simp]:
  "map trade_date (filter (\<lambda>r. ts_code r = s) (map (\<lambda>r. r\<lparr>cells := g r\<rparr>) rs)) =
   map trade_date (filter (\<lambda>r. ts_code r = s) rs)"
  by (induction rs) auto


lemma symbol_dates_rename [simp]:
  "map trade_date (filter (\<lambda>r. ts_code r = s) (rows (rename_columns m df))) =
   map trade_date (filter (\<lambda>r. ts_code r = s) (rows df))"
  by (simp add: rename_columns_def)
















lemma dup_two_symbols_raises:
  "reshape_prices dup_two_symbols [''close''] [''Close''] =
     Inl (ValueError ''cannot reindex on an axis with duplicate labels'')"
  by (simp add: dup_two_symbols_def field_mapping_def price_columns_def pandas_defs Let_def)









subsection \<open>A symbol without rows\<close>

lemma daily_loop_answers:
  "snd (daily_loop h sl stocks num all_data tr) =
     (case answers (\<lambda>s. daily (pro h) s (start_date h) (end_date h)) stocks of
        Inl e \<Rightarrow> Inl e
      | Inr dfs \<Rightarrow> Inr (all_data @ dfs))"
  by (induction stocks arbitrary: num all_data tr) (auto simp: Let_def split: sum.splits)

lemma daily_basic_loop_answers:
  "snd (daily_basic_loop h sl fwd stocks all_data tr) =
     (case answers (\<lambda>s. daily_basic (pro h) s (start_date h) (end_date h) fwd) stocks of
        Inl e \<Rightarrow> Inl e
      | Inr dfs \<Rightarrow> Inr (all_data @ dfs))"
  by (induction stocks arbitrary: all_data tr) (auto simp: Let_def split: sum.splits)

lemma answers_append:
  "answers call (xs @ ys) =
     (case answers call xs of
        Inl e \<Rightarrow> Inl e
      | Inr a \<Rightarrow> (case answers call ys of Inl e \<Rightarrow> Inl e | Inr b \<Rightarrow> Inr (a @ b)))"
  by (induction xs) (auto split: sum.splits)

lemma get_prices_result:
  "snd (get_prices_from_tushare h stock_list flds sl) =
     (case mapped_fields flds of
        Inl e \<Rightarrow> Inl e
      | Inr mapped \<Rightarrow>
          (case answers (\<lambda>s. daily (pro h) s (start_date h) (end_date h)) stock_list of
             Inl e \<Rightarrow> Inl e
           | Inr all_data \<Rightarrow>
               (case pd_concat all_data of
                  Inl e \<Rightarrow> Inl e
                | Inr combined_data \<Rightarrow> reshape_prices combined_data flds mapped)))"
proof (cases "mapped_fields flds")
  case (Inl e)
  then show ?thesis by (simp add: get_prices_from_tushare_def)
next
  case (Inr mapped)
  obtain tr r where l: "daily_loop h sl stock_list 0 [] [Print Start_prices] = (tr, r)"
    by (cases "daily_loop h sl stock_list 0 [] [Print Start_prices]")
  then have "r = snd (daily_loop h sl stock_list 0 [] [Print Start_prices])" by simp
  then have r: "r = (case answers (\<lambda>s. daily (pro h) s (start_date h) (end_date h)) stock_list of
        Inl e \<Rightarrow> Inl e | Inr dfs \<Rightarrow> Inr dfs)"
    by (simp add: daily_loop_answers split: sum.splits)
  show ?thesis
    using Inr l r by (simp add: get_prices_from_tushare_def split: sum.splits)
qed

lemma get_factors_result:
  "snd (get_factors_from_tushare h stock_list factors sl) =
     (case answers (\<lambda>s. daily_basic (pro h) s (start_date h) (end_date h)
                          (factors @ [''trade_date''])) stock_list of
        Inl e \<Rightarrow> Inl e
      | Inr all_data \<Rightarrow>
          (case pd_concat all_data of
             Inl e \<Rightarrow> Inl e
           | Inr combined_data \<Rightarrow> reshape_factors combined_data factors))"
proof -
  let ?fwd = "factors @ [''trade_date'']"
  obtain tr r where l: "daily_basic_loop h sl ?fwd stock_list [] [Print Start_factors] = (tr, r)"
    by (cases "daily_basic_loop h sl ?fwd stock_list [] [Print Start_factors]")
  then have "r = snd (daily_basic_loop h sl ?fwd stock_list [] [Print Start_factors])" by simp
  then have r: "r = (case answers (\<lambda>s. daily_basic (pro h) s (start_date h) (end_date h) ?fwd)
        stock_list of Inl e \<Rightarrow> Inl e | Inr dfs \<Rightarrow> Inr dfs)"
    by (simp add: daily_basic_loop_answers split: sum.splits)
  show ?thesis
    using l r by (simp add: get_factors_from_tushare_def Let_def split: sum.splits)
qed

lemma select_columns_more_columns:
  assumes "select_columns b flds = Inr sel" and "rows a = rows b"
    and "set (columns b) \<subseteq> set (columns a)"
  shows "select_columns a flds = Inr sel"
proof -
  from assms(1) have "find (\<lambda>f. f \<notin> set (columns b)) flds = None"
    by (auto simp: select_columns_def split: option.splits)
  then have "find (\<lambda>f. f \<notin> set (columns a)) flds = None"
    using assms(3) by (auto simp: find_None_iff)
  with assms(1,2) show ?thesis
    by (auto simp: select_columns_def split: option.splits)
qed

text \<open>An answer without rows, put anywhere among the others, leaves the rows of the
  concatenation as they are and removes no column.\<close>

lemma pd_concat_empty_answer:
  assumes "pd_concat (a @ b) = Inr comb" and "rows z = []"
  shows "\<exists>comb'. pd_concat (a @ z # b) = Inr comb' \<and> rows comb' = rows comb \<and>
           set (columns comb) \<subseteq> set (columns comb')"
  using assms by (auto simp: pd_concat_def split: if_splits)

lemma rows_set_ts_code_Nil [simp]: "rows df = [] \<Longrightarrow> rows (set_ts_code df s) = []"
  by (simp add: set_ts_code_def)

lemma zero_row_answer:
  assumes "call z = Inr dfz" and "rows dfz = []"
    and "(case answers call (xs @ ys) of
        Inl e \<Rightarrow> Inl e
      | Inr all_data \<Rightarrow>
          (case pd_concat all_data of
             Inl e \<Rightarrow> Inl e
           | Inr combined_data \<Rightarrow> reshape combined_data)) = Inr w"
    and sel: "\<And>a b. rows a = rows b \<Longrightarrow> set (columns b) \<subseteq> set (columns a) \<Longrightarrow>
       reshape b = Inr w \<Longrightarrow> reshape a = Inr w"
  shows "(case answers call (xs @ z # ys) of
        Inl e \<Rightarrow> Inl e
      | Inr all_data \<Rightarrow>
          (case pd_concat all_data of
             Inl e \<Rightarrow> Inl e
           | Inr combined_data \<Rightarrow> reshape combined_data)) = Inr w"
proof -
  from assms(3) obtain a b comb where
    a: "answers call xs = Inr a" and b: "answers call ys = Inr b"
    and c: "pd_concat (a @ b) = Inr comb" and r: "reshape comb = Inr w"
    by (auto simp: answers_append split: sum.splits)
  from pd_concat_empty_answer [OF c, of "set_ts_code dfz z"] assms(2)
  obtain comb' where c': "pd_concat (a @ set_ts_code dfz z # b) = Inr comb'"
    and rw: "rows comb' = rows comb" and cl: "set (columns comb) \<subseteq> set (columns comb')"
    by auto
  have "answers call (xs @ z # ys) = Inr (a @ set_ts_code dfz z # b)"
    using a b assms(1) by (simp add: answers_append)
  with c' sel [OF rw cl r] show ?thesis by simp
qed

lemma reshape_prices_more_columns:
  assumes "rows a = rows b" and "set (columns b) \<subseteq> set (columns a)"
    and "reshape_prices b flds mapped = Inr w"
  shows "reshape_prices a flds mapped = Inr w"
proof -
  from assms(3) obtain sel where s: "select_columns b flds = Inr sel"
    and n: "new_structure_df (rename_columns field_mapping sel) mapped = Inr w"
    by (auto simp: reshape_prices_def split: sum.splits)
  from select_columns_more_columns [OF s assms(1,2)] n show ?thesis
    by (simp add: reshape_prices_def)
qed

lemma reshape_factors_more_columns:
  assumes "rows a = rows b" and "set (columns b) \<subseteq> set (columns a)"
    and "reshape_factors b factors = Inr w"
  shows "reshape_factors a factors = Inr w"
proof -
  from assms(3) obtain sel where s: "select_columns b factors = Inr sel"
    and n: "new_structure_df sel factors = Inr w"
    by (auto simp: reshape_factors_def split: sum.splits)
  from select_columns_more_columns [OF s assms(1,2)] n show ?thesis
    by (simp add: reshape_factors_def)
qed

text \<open>
  Claim C9. Take a symbol list that the sequential fetcher turns into a wide table, and
  put anywhere into it a symbol whose remote call succeeds with zero rows: the fetcher
  still completes, with the very same wide table. So among symbols that return rows a
  zero-row symbol fails nothing and contributes nothing. This holds for the price and
  for the factor fetcher.
\<close>

theorem zero_row_symbol_contributes_nothing:
  "(daily (pro h) z (start_date h) (end_date h) = Inr dfz \<longrightarrow> rows dfz = [] \<longrightarrow>
    snd (get_prices_from_tushare h (xs @ ys) flds sleep_time) = Inr w \<longrightarrow>
    snd (get_prices_from_tushare h (xs @ z # ys) flds sleep_time) = Inr w) \<and>
   (daily_basic (pro h) z (start_date h) (end_date h) (factors @ [''trade_date'']) = Inr dfz' \<longrightarrow>
    rows dfz' = [] \<longrightarrow>
    snd (get_factors_from_tushare h (xs @ ys) factors sleep_time) = Inr w' \<longrightarrow>
    snd (get_factors_from_tushare h (xs @ z # ys) factors sleep_time) = Inr w')"
proof (intro conjI impI)
  assume z: "daily (pro h) z (start_date h) (end_date h) = Inr dfz" and e: "rows dfz = []"
    and r: "snd (get_prices_from_tushare h (xs @ ys) flds sleep_time) = Inr w"
  from r obtain mapped where m: "mapped_fields flds = Inr mapped"
    by (auto simp: get_prices_result split: sum.splits)
  from r m have "(case answers (\<lambda>s. daily (pro h) s (start_date h) (end_date h)) (xs @ ys) of
        Inl e \<Rightarrow> Inl e
      | Inr all_data \<Rightarrow>
          (case pd_concat all_data of
             Inl e \<Rightarrow> Inl e
           | Inr combined_data \<Rightarrow> reshape_prices combined_data flds mapped)) = Inr w"
    by (simp add: get_prices_result)
  from zero_row_answer [where call = "\<lambda>s. daily (pro h) s (start_date h) (end_date h)",
      OF z e this reshape_prices_more_columns] m
  show "snd (get_prices_from_tushare h (xs @ z # ys) flds sleep_time) = Inr w"
    by (simp add: get_prices_result)
next
  assume z: "daily_basic (pro h) z (start_date h) (end_date h) (factors @ [''trade_date'']) = Inr dfz'"
    and e: "rows dfz' = []"
    and r: "snd (get_factors_from_tushare h (xs @ ys) factors sleep_time) = Inr w'"
  from r have "(case answers (\<lambda>s. daily_basic (pro h) s (start_date h) (end_date h)
                          (factors @ [''trade_date''])) (xs @ ys) of
        Inl e \<Rightarrow> Inl e
      | Inr all_data \<Rightarrow>
          (case pd_concat all_data of
             Inl e \<Rightarrow> Inl e
           | Inr combined_data \<Rightarrow> reshape_factors combined_data factors)) = Inr w'"
    by (simp add: get_factors_result)
  from zero_row_answer [where call = "\<lambda>s. daily_basic (pro h) s (start_date h) (end_date h)
                          (factors @ [''trade_date''])",
      OF z e this reshape_factors_more_columns]
  show "snd (get_factors_from_tushare h (xs @ z # ys) factors sleep_time) = Inr w'"
    by (simp add: get_factors_result)
qed

theorem zero_row_symbol_contributes_nothing_witness:
  "daily (pro demo_handler) ''ZZZ'' (start_date demo_handler) (end_date demo_handler) =
     Inr \<lparr>columns = price_columns, rows = []\<rparr> \<and>
   daily_basic (pro demo_handler) ''ZZZ'' (start_date demo_handler) (end_date demo_handler)
     ([''total_mv''] @ [''trade_date'']) = Inr \<lparr>columns = [''total_mv''], rows = []\<rparr> \<and>
   snd (get_prices_from_tushare demo_handler ([''AAA''] @ [''BBB'']) [''close''] 0) =
     Inr demo_wide_close \<and>
   snd (get_prices_from_tushare demo_handler ([''AAA''] @ ''ZZZ'' # [''BBB'']) [''close''] 0) =
     Inr demo_wide_close \<and>
   snd (get_factors_from_tushare demo_handler ([''AAA''] @ [''BBB'']) [''total_mv''] 0) =
     Inr demo_wide_mv \<and>
   snd (get_factors_from_tushare demo_handler ([''AAA''] @ ''ZZZ'' # [''BBB'']) [''total_mv''] 0) =
     Inr demo_wide_mv"
proof -
  have a: "daily (pro demo_handler) ''ZZZ'' (start_date demo_handler) (end_date demo_handler) =
     Inr \<lparr>columns = price_columns, rows = []\<rparr>"
    by (simp add: demo_handler_def demo_daily_def)
  have b: "daily_basic (pro demo_handler) ''ZZZ'' (start_date demo_handler) (end_date demo_handler)
     ([''total_mv''] @ [''trade_date'']) = Inr \<lparr>columns = [''total_mv''], rows = []\<rparr>"
    by (simp add: demo_handler_def demo_daily_basic_def)
  from zero_row_symbol_contributes_nothing [where h = demo_handler and z = "''ZZZ''" and xs = "[''AAA'']" and ys = "[''BBB'']"
      and flds = "[''close'']" and factors = "[''total_mv'']" and sleep_time = 0
      and dfz = "\<lparr>columns = price_columns, rows = []\<rparr>"
      and dfz' = "\<lparr>columns = [''total_mv''], rows = []\<rparr>"
      and w = demo_wide_close and w' = demo_wide_mv]
    a b demo_prices_sequential demo_factors_sequential
  show ?thesis by simp
qed


subsection \<open>Series without repeated dates\<close>

lemma fold_remove1_distinct:
  "distinct b \<Longrightarrow> fold remove1 a b = filter (\<lambda>x. x \<notin> set a) b"
proof (induction a arbitrary: b)
  case Nil
  then show ?case by simp
next
  case (Cons x a)
  have "remove1 x b = filter (\<lambda>y. y \<noteq> x) b"
    using Cons.prems
    by (simp add: distinct_remove1_removeAll removeAll_filter_not_eq) (rule filter_cong, auto)
  moreover have "distinct (remove1 x b)" using Cons.prems by simp
  ultimately show ?case using Cons.IH [of "remove1 x b"]
    by (auto intro: filter_cong)
qed

lemma union_index_distinct:
  assumes "distinct a" and "distinct b"
  shows "distinct (union_index a b) \<and> set (union_index a b) = set a \<union> set b"
  using assms by (auto simp: union_index_def fold_remove1_distinct)

lemma foldl_union_index_distinct:
  "distinct i \<Longrightarrow> \<forall>x\<in>set rest. distinct x \<Longrightarrow>
   distinct (foldl union_index i rest) \<and>
   set (foldl union_index i rest) = set i \<union> \<Union> (set ` set rest)"
proof (induction rest arbitrary: i)
  case Nil
  then show ?case by simp
next
  case (Cons x rest)
  from Cons.prems have u: "distinct (union_index i x)" "set (union_index i x) = set i \<union> set x"
    using union_index_distinct [of i x] by auto
  from Cons.IH [OF u(1)] Cons.prems(2) u(2) show ?case by auto
qed

lemma union_indexes_distinct:
  assumes "\<forall>x\<in>set ixs. distinct x"
  shows "distinct (union_indexes ixs) \<and> set (union_indexes ixs) = \<Union> (set ` set ixs)"
proof (cases ixs)
  case Nil
  then show ?thesis by (simp add: union_indexes_def)
next
  case (Cons i rest)
  with assms foldl_union_index_distinct [of i rest] show ?thesis
    by (simp add: union_indexes_def)
qed

lemma value_at_dates:
  "distinct (map fst s) \<Longrightarrow> map (value_at s) (map fst s) = map snd s"
proof (induction s)
  case Nil
  then show ?case by simp
next
  case (Cons p s)
  have "value_at (p # s) d = value_at s d" if "d \<in> set (map fst s)" for d
    using that Cons.prems by (cases p) (auto simp: value_at_def)
  then have "map (value_at (p # s)) (map fst s) = map (value_at s) (map fst s)"
    by (intro map_cong) auto
  with Cons show ?case by (cases p) (simp add: value_at_def)
qed

lemma reindex_distinct:
  "distinct (map fst s) \<Longrightarrow> reindex s ix = Inr (map (value_at s) ix)"
  using value_at_dates [of s] by (auto simp: reindex_def value_at_def [abs_def])

lemma reindex_all_distinct:
  "\<forall>s\<in>set ss. distinct (map fst s) \<Longrightarrow>
   reindex_all ss ix = Inr (map (\<lambda>s. map (value_at s) ix) ss)"
  by (induction ss) (simp_all add: reindex_distinct)

lemma aligned_rows:
  "map (\<lambda>i. (ix ! i, map (\<lambda>vs. vs ! i) (map (\<lambda>s. map (value_at s) ix) ss))) [0..<length ix] =
   map (\<lambda>d. (d, map (\<lambda>s. value_at s d) ss)) ix"
  by (rule nth_equalityI) (simp_all add: comp_def)

lemma sort_key_fst_tagged:
  "sort_key fst (map (\<lambda>d. (d, g d)) ix) = map (\<lambda>d. (d, g d)) (sort ix)"
proof -
  have "insort_key fst (d, g d) (map (\<lambda>d. (d, g d)) xs) = map (\<lambda>d. (d, g d)) (insort d xs)"
    for d xs by (induction xs) auto
  then show ?thesis by (induction ix) auto
qed


lemma distinct_symbol_dates:
  "distinct (map (\<lambda>r. (trade_date r, ts_code r)) rs) \<Longrightarrow>
   distinct (map trade_date (filter (\<lambda>r. ts_code r = s) rs))"
  by (induction rs) (auto simp: image_iff)

lemma new_structure_df_closed:
  assumes c: "columns df = fs" and d: "distinct fs"
    and k: "distinct (map (\<lambda>r. (trade_date r, ts_code r)) (rows df))"
  defines "K \<equiv> List.product (unique (map ts_code (rows df))) fs"
  shows "new_structure_df df fs =
     Inr \<lparr>wcolumns = K,
          wrows = map (\<lambda>d. (d, map (\<lambda>k. value_at (symbol_series df (fst k) (snd k)) d) K))
                    (sort (union_indexes
                       (map (\<lambda>k. map fst (symbol_series df (fst k) (snd k))) K)))\<rparr>"
proof -
  define ss where "ss = map (\<lambda>k. symbol_series df (fst k) (snd k)) K"
  define ix where "ix = union_indexes (map (map fst) ss)"
  have dist: "\<forall>s\<in>set ss. distinct (map fst s)"
    using distinct_symbol_dates [OF k] by (auto simp: ss_def)
  have r: "reindex_all ss ix = Inr (map (\<lambda>s. map (value_at s) ix) ss)"
    using dist by (rule reindex_all_distinct)
  have "new_structure_df df fs =
      Inr (sort_index \<lparr>wcolumns = K,
             wrows = map (\<lambda>i. (ix ! i, map (\<lambda>vs. vs ! i) (map (\<lambda>s. map (value_at s) ix) ss)))
                       [0..<length ix]\<rparr>)"
    using new_structure_df_distinct [OF c d] r
    by (simp add: K_def ss_def ix_def)
  also have "\<dots> = Inr \<lparr>wcolumns = K,
      wrows = map (\<lambda>d. (d, map (\<lambda>s. value_at s d) ss)) (sort ix)\<rparr>"
    by (simp only: aligned_rows) (simp add: sort_index_def sort_key_fst_tagged)
  finally show ?thesis by (simp add: ss_def ix_def comp_def)
qed

lemma new_structure_df_repeated_label:
  assumes c: "columns df = fs" and d: "\<not> distinct fs" and ne: "rows df \<noteq> []"
  shows "new_structure_df df fs =
     Inl (ValueError ''If using all scalar values, you must pass an index'')"
proof -
  let ?U = "unique (map ts_code (rows df))"
  let ?K = "unique (List.product ?U fs)"
  let ?d = "map (\<lambda>k. (k, selected df k)) ?K"
  have dd: "new_structure_data df fs = Inr ?d"
    using c by (intro new_structure_data_tagged) simp
  from ne obtain s where s: "s \<in> set ?U" by (cases "rows df") auto
  from d have "\<not> (\<forall>f. count_list fs f = (if f \<in> set fs then 1 else 0))"
    by (simp add: distinct_count_atmost_1 count_mset)
  then obtain f where "count_list fs f \<noteq> (if f \<in> set fs then 1 else 0)" by blast
  then have f: "f \<in> set fs" "count_list fs f \<noteq> 1"
    by (cases "f \<in> set fs"; simp add: count_list_0_iff)+
  then have "selected df (s, f) = SubFrame" using c by (simp add: selected_def)
  moreover have "(s, f) \<in> set ?K" using s f by simp
  ultimately have "SubFrame \<in> set (map snd ?d)" by (force simp: comp_def)
  then have "series_of (map snd ?d) =
      Inl (ValueError ''If using all scalar values, you must pass an index'')"
    by (rule series_of_SubFrame)
  then have "DataFrame ?d = Inl (ValueError ''If using all scalar values, you must pass an index'')"
    by (simp add: DataFrame_def)
  with dd show ?thesis by (simp add: new_structure_df_def)
qed

lemma symbol_series_same:
  assumes m: "mset (rows a) = mset (rows b)"
    and k: "distinct (map (\<lambda>r. (trade_date r, ts_code r)) (rows a))"
  shows "value_at (symbol_series a s f) = value_at (symbol_series b s f)"
    and "set (map fst (symbol_series a s f)) = set (map fst (symbol_series b s f))"
proof -
  have "mset (map (\<lambda>r. (trade_date r, ts_code r)) (rows a)) =
        mset (map (\<lambda>r. (trade_date r, ts_code r)) (rows b))"
    using m by (metis mset_map)
  with k have kb: "distinct (map (\<lambda>r. (trade_date r, ts_code r)) (rows b))"
    by (metis mset_eq_imp_distinct_iff)
  have st: "set (rows a) = set (rows b)" using m by (rule mset_eq_setD)
  then have ss: "set (symbol_series a s f) = set (symbol_series b s f)"
    by (simp add: symbol_series_def)
  have "distinct (map fst (symbol_series a s f))" "distinct (map fst (symbol_series b s f))"
    using distinct_symbol_dates [OF k, of s] distinct_symbol_dates [OF kb, of s] by simp_all
  then have "map_of (symbol_series a s f) = map_of (symbol_series b s f)"
    using ss by (simp add: map_of_inject_set)
  then show "value_at (symbol_series a s f) = value_at (symbol_series b s f)"
    by (simp add: value_at_def [abs_def])
  show "set (map fst (symbol_series a s f)) = set (map fst (symbol_series b s f))"
    using ss by (metis set_map)
qed

lemma new_structure_df_same:
  assumes ca: "columns a = fs" and cb: "columns b = fs"
    and m: "mset (rows a) = mset (rows b)"
    and u: "unique (map ts_code (rows a)) = unique (map ts_code (rows b))"
    and k: "distinct (map (\<lambda>r. (trade_date r, ts_code r)) (rows a))"
  shows "new_structure_df a fs = new_structure_df b fs"
proof (cases "distinct fs")
  case True
  have "mset (map (\<lambda>r. (trade_date r, ts_code r)) (rows a)) =
        mset (map (\<lambda>r. (trade_date r, ts_code r)) (rows b))"
    using m by (metis mset_map)
  with k have kb: "distinct (map (\<lambda>r. (trade_date r, ts_code r)) (rows b))"
    by (metis mset_eq_imp_distinct_iff)
  define K where "K = List.product (unique (map ts_code (rows b))) fs"
  define ia where "ia = union_indexes (map (\<lambda>k. map fst (symbol_series a (fst k) (snd k))) K)"
  define ib where "ib = union_indexes (map (\<lambda>k. map fst (symbol_series b (fst k) (snd k))) K)"
  note same = symbol_series_same [OF m k]
  have da: "\<forall>x\<in>set (map (\<lambda>k. map fst (symbol_series a (fst k) (snd k))) K). distinct x"
    using distinct_symbol_dates [OF k] by auto
  have db: "\<forall>x\<in>set (map (\<lambda>k. map fst (symbol_series b (fst k) (snd k))) K). distinct x"
    using distinct_symbol_dates [OF kb] by auto
  have "set ia = (\<Union>k\<in>set K. set (map fst (symbol_series a (fst k) (snd k))))"
    using union_indexes_distinct [OF da] by (simp add: ia_def)
  also have "\<dots> = (\<Union>k\<in>set K. set (map fst (symbol_series b (fst k) (snd k))))"
    using same(2) by simp
  also have "\<dots> = set ib"
    using union_indexes_distinct [OF db] by (simp add: ib_def)
  finally have "set (sort ia) = set (sort ib)" by simp
  moreover have "distinct (sort ia)" "distinct (sort ib)"
    using union_indexes_distinct [OF da] union_indexes_distinct [OF db]
    by (simp_all add: ia_def ib_def)
  ultimately have srt: "sort ia = sort ib"
    by (intro sorted_distinct_set_unique) simp_all
  have "new_structure_df a fs =
     Inr \<lparr>wcolumns = K,
          wrows = map (\<lambda>d. (d, map (\<lambda>k. value_at (symbol_series a (fst k) (snd k)) d) K))
                    (sort ia)\<rparr>"
    using new_structure_df_closed [OF ca True k] by (simp add: K_def ia_def u)
  moreover have "new_structure_df b fs =
     Inr \<lparr>wcolumns = K,
          wrows = map (\<lambda>d. (d, map (\<lambda>k. value_at (symbol_series b (fst k) (snd k)) d) K))
                    (sort ib)\<rparr>"
    using new_structure_df_closed [OF cb True kb] by (simp add: K_def ib_def)
  ultimately show ?thesis by (simp only: srt same(1))
next
  case False
  show ?thesis
  proof (cases "rows a = []")
    case True
    with m have "rows b = []" by simp
    with True ca cb have "a = b" by simp
    then show ?thesis by simp
  next
    case ne: False
    with m have "rows b \<noteq> []" by auto
    with new_structure_df_repeated_label [OF ca False ne]
      new_structure_df_repeated_label [OF cb False]
    show ?thesis by simp
  qed
qed


subsection \<open>Long tables that hold the same data\<close>

lemma select_columns_same:
  assumes "set (columns a) = set (columns b)"
  shows "select_columns a flds =
     (case select_columns b flds of
        Inl e \<Rightarrow> Inl e
      | Inr sel \<Rightarrow>
          Inr \<lparr>columns = flds,
               rows = map (\<lambda>r. r\<lparr>cells := cells r |` set flds\<rparr>) (rows a)\<rparr>)"
  using assms by (simp add: select_columns_def split: option.splits)

lemma new_structure_df_mapped_rows:
  assumes s: "same_long_table a b"
    and t: "\<And>r. ts_code (g r) = ts_code r" and d: "\<And>r. trade_date (g r) = trade_date r"
  shows "new_structure_df \<lparr>columns = fs, rows = map g (rows a)\<rparr> fs =
         new_structure_df \<lparr>columns = fs, rows = map g (rows b)\<rparr> fs"
proof (rule new_structure_df_same)
  show "columns \<lparr>columns = fs, rows = map g (rows a)\<rparr> = fs" by simp
  show "columns \<lparr>columns = fs, rows = map g (rows b)\<rparr> = fs" by simp
  from s have "mset (rows a) = mset (rows b)" by (simp add: same_long_table_def)
  then have "mset (map g (rows a)) = mset (map g (rows b))" by (metis mset_map)
  then show "mset (rows \<lparr>columns = fs, rows = map g (rows a)\<rparr>) =
             mset (rows \<lparr>columns = fs, rows = map g (rows b)\<rparr>)" by simp
  have ta: "map ts_code (map g rs) = map ts_code rs" for rs
    by (induction rs) (simp_all add: t)
  from s have u: "unique (map ts_code (rows a)) = unique (map ts_code (rows b))"
    by (simp add: same_long_table_def)
  show "unique (map ts_code (rows \<lparr>columns = fs, rows = map g (rows a)\<rparr>)) =
        unique (map ts_code (rows \<lparr>columns = fs, rows = map g (rows b)\<rparr>))"
    by (simp add: ta u del: map_map)
  have ka: "map (\<lambda>r. (trade_date r, ts_code r)) (map g rs) =
      map (\<lambda>r. (trade_date r, ts_code r)) rs" for rs
    by (induction rs) (simp_all add: t d)
  from s have k: "distinct (map (\<lambda>r. (trade_date r, ts_code r)) (rows a))"
    by (simp add: same_long_table_def)
  show "distinct (map (\<lambda>r. (trade_date r, ts_code r))
        (rows \<lparr>columns = fs, rows = map g (rows a)\<rparr>))"
    by (simp add: ka k del: map_map)
qed

lemma reshape_factors_same:
  assumes s: "same_long_table a b"
  shows "reshape_factors a factors = reshape_factors b factors"
proof -
  from s have c: "set (columns a) = set (columns b)" by (simp add: same_long_table_def)
  show ?thesis
  proof (cases "select_columns b factors")
    case (Inl e)
    then show ?thesis using select_columns_same [OF c, of factors]
      by (simp add: reshape_factors_def)
  next
    case (Inr sel)
    then have sb: "sel = \<lparr>columns = factors,
        rows = map (\<lambda>r. r\<lparr>cells := cells r |` set factors\<rparr>) (rows b)\<rparr>"
      by (auto simp: select_columns_def split: option.splits)
    have sa: "select_columns a factors = Inr \<lparr>columns = factors,
        rows = map (\<lambda>r. r\<lparr>cells := cells r |` set factors\<rparr>) (rows a)\<rparr>"
      using select_columns_same [OF c, of factors] Inr by simp
    show ?thesis
      unfolding reshape_factors_def sa Inr sb
      using new_structure_df_mapped_rows [OF s,
          of "\<lambda>r. r\<lparr>cells := cells r |` set factors\<rparr>" factors]
      by simp
  qed
qed

lemma reshape_prices_same:
  assumes s: "same_long_table a b" and m: "mapped_fields flds = Inr mapped"
  shows "reshape_prices a flds mapped = reshape_prices b flds mapped"
proof -
  from s have c: "set (columns a) = set (columns b)" by (simp add: same_long_table_def)
  show ?thesis
  proof (cases "select_columns b flds")
    case (Inl e)
    then show ?thesis using select_columns_same [OF c, of flds]
      by (simp add: reshape_prices_def)
  next
    case (Inr sel)
    then have sb: "sel = \<lparr>columns = flds,
        rows = map (\<lambda>r. r\<lparr>cells := cells r |` set flds\<rparr>) (rows b)\<rparr>"
      by (auto simp: select_columns_def split: option.splits)
    have sa: "select_columns a flds = Inr \<lparr>columns = flds,
        rows = map (\<lambda>r. r\<lparr>cells := cells r |` set flds\<rparr>) (rows a)\<rparr>"
      using select_columns_same [OF c, of flds] Inr by simp
    define h where "h = (\<lambda>r :: row. r\<lparr>cells :=
                 (\<lambda>c'. case find (\<lambda>c. rename_label field_mapping c = c') flds of
                          None \<Rightarrow> None
                        | Some c \<Rightarrow> cells r c)\<rparr>)"
    define g where "g = (\<lambda>r :: row. h (r\<lparr>cells := cells r |` set flds\<rparr>))"
    have ren: "rename_columns field_mapping \<lparr>columns = flds,
        rows = map (\<lambda>r. r\<lparr>cells := cells r |` set flds\<rparr>) rs\<rparr> =
        \<lparr>columns = mapped, rows = map g rs\<rparr>" for rs
      using rename_mapped [OF m] by (simp add: rename_columns_def g_def h_def comp_def)
    show ?thesis
      unfolding reshape_prices_def sa Inr sb
      using new_structure_df_mapped_rows [OF s, of g mapped]
      by (simp add: ren) (simp add: g_def h_def)
  qed
qed


subsection \<open>Sequential and batch fetchers\<close>

lemma get_prices_parallel_result:
  "snd (get_prices_from_tushare_parallel h stock_list flds) =
     (case mapped_fields flds of
        Inl e \<Rightarrow> Inl e
      | Inr mapped \<Rightarrow>
          (case daily (pro h) (join_comma stock_list) (start_date h) (end_date h) of
             Inl e \<Rightarrow> Inl e
           | Inr df_all \<Rightarrow>
               if rows df_all = [] then Inr None
               else map_sum id Some (reshape_prices df_all flds mapped)))"
  by (simp add: get_prices_from_tushare_parallel_def Let_def split: sum.splits)

lemma get_factors_parallel_result:
  "snd (get_factors_from_tushare_parallel h stock_list factors) =
     (case daily_basic (pro h) (join_comma stock_list) (start_date h) (end_date h)
             (factors @ [''trade_date'', ''ts_code'']) of
        Inl e \<Rightarrow> Inl e
      | Inr df_all \<Rightarrow>
          if rows df_all = [] then Inr None
          else map_sum id Some (reshape_factors df_all factors))"
  by (simp add: get_factors_from_tushare_parallel_def Let_def split: sum.splits)

text \<open>
  Claim C1, as stated: whenever the provider accepts the combined request and no remote
  error occurs, the sequential and the batch fetchers return identical wide tables. For
  the one symbol \<open>ZZZ\<close>, which has no row in the range, both requests are the same call
  and it succeeds with an empty answer: the sequential fetcher returns a wide table
  without rows and columns, the batch fetcher returns \<open>None\<close>.
\<close>

theorem empty_answer_sequential_and_batch_differ:
  "daily (pro demo_handler) (join_comma [''ZZZ'']) (start_date demo_handler)
     (end_date demo_handler) = Inr \<lparr>columns = price_columns, rows = []\<rparr> \<and>
   snd (get_prices_from_tushare demo_handler [''ZZZ''] [''close''] 0) =
     Inr \<lparr>wcolumns = [], wrows = []\<rparr> \<and>
   snd (get_prices_from_tushare_parallel demo_handler [''ZZZ''] [''close'']) = Inr None"
  by (simp add: get_prices_from_tushare_def get_prices_from_tushare_parallel_def
      field_mapping_def demo_defs pandas_defs Let_def)


text \<open>
  Claim C1, amended. Let every per-symbol call and the combined call succeed, let the
  combined answer have at least one row, and let it hold the same data as the
  concatenation of the per-symbol answers (each stamped with its requested symbol): the
  same columns, the same rows in any order, the symbols first seen in the same order, at
  most one row per date and symbol. Then the batch fetcher returns exactly what the
  sequential fetcher returns: the same wide table (rows, values, column and row order),
  or the same exception of the reshaping. This holds for prices and for factors.
\<close>

theorem sequential_and_batch_agree:
  "(answers (\<lambda>s. daily (pro h) s (start_date h) (end_date h)) stock_list = Inr all_data \<longrightarrow>
    pd_concat all_data = Inr combined_data \<longrightarrow>
    daily (pro h) (join_comma stock_list) (start_date h) (end_date h) = Inr df_all \<longrightarrow>
    rows df_all \<noteq> [] \<longrightarrow>
    same_long_table df_all combined_data \<longrightarrow>
    snd (get_prices_from_tushare_parallel h stock_list flds) =
      map_sum id Some (snd (get_prices_from_tushare h stock_list flds sleep_time))) \<and>
   (answers (\<lambda>s. daily_basic (pro h) s (start_date h) (end_date h) (factors @ [''trade_date'']))
      stock_list = Inr all_data' \<longrightarrow>
    pd_concat all_data' = Inr combined_data' \<longrightarrow>
    daily_basic (pro h) (join_comma stock_list) (start_date h) (end_date h)
      (factors @ [''trade_date'', ''ts_code'']) = Inr df_all' \<longrightarrow>
    rows df_all' \<noteq> [] \<longrightarrow>
    same_long_table df_all' combined_data' \<longrightarrow>
    snd (get_factors_from_tushare_parallel h stock_list factors) =
      map_sum id Some (snd (get_factors_from_tushare h stock_list factors sleep_time)))"
proof (intro conjI impI)
  assume a: "answers (\<lambda>s. daily (pro h) s (start_date h) (end_date h)) stock_list = Inr all_data"
    and c: "pd_concat all_data = Inr combined_data"
    and b: "daily (pro h) (join_comma stock_list) (start_date h) (end_date h) = Inr df_all"
    and ne: "rows df_all \<noteq> []" and s: "same_long_table df_all combined_data"
  show "snd (get_prices_from_tushare_parallel h stock_list flds) =
      map_sum id Some (snd (get_prices_from_tushare h stock_list flds sleep_time))"
  proof (cases "mapped_fields flds")
    case (Inl e)
    then show ?thesis by (simp add: get_prices_parallel_result get_prices_result)
  next
    case (Inr mapped)
    with a b c ne reshape_prices_same [OF s Inr] show ?thesis
      by (simp add: get_prices_parallel_result get_prices_result)
  qed
next
  assume a: "answers (\<lambda>s. daily_basic (pro h) s (start_date h) (end_date h)
        (factors @ [''trade_date''])) stock_list = Inr all_data'"
    and c: "pd_concat all_data' = Inr combined_data'"
    and b: "daily_basic (pro h) (join_comma stock_list) (start_date h) (end_date h)
      (factors @ [''trade_date'', ''ts_code'']) = Inr df_all'"
    and ne: "rows df_all' \<noteq> []" and s: "same_long_table df_all' combined_data'"
  with reshape_factors_same [OF s, of factors]
  show "snd (get_factors_from_tushare_parallel h stock_list factors) =
      map_sum id Some (snd (get_factors_from_tushare h stock_list factors sleep_time))"
    by (simp add: get_factors_parallel_result get_factors_result)
qed

lemma demo_answers:
  "answers (\<lambda>s. daily (pro demo_handler) s (start_date demo_handler) (end_date demo_handler))
     [''AAA'', ''BBB''] = Inr demo_all_data"
  by (simp add: demo_defs demo_all_data_def set_ts_code_def mk_row_def)

lemma demo_answers_mv:
  "answers (\<lambda>s. daily_basic (pro demo_handler) s (start_date demo_handler)
     (end_date demo_handler) ([''total_mv''] @ [''trade_date''])) [''AAA'', ''BBB''] =
   Inr demo_all_data_mv"
  by (simp add: demo_defs demo_all_data_mv_def set_ts_code_def mk_row_def)

lemma demo_concat: "pd_concat demo_all_data = Inr demo_combined"
  by (simp add: pd_concat_def demo_all_data_def demo_combined_def unique_def price_columns_def)

lemma demo_concat_mv: "pd_concat demo_all_data_mv = Inr demo_combined_mv"
  by (simp add: pd_concat_def demo_all_data_mv_def demo_combined_mv_def unique_def)

lemma demo_batch:
  "daily (pro demo_handler) (join_comma [''AAA'', ''BBB'']) (start_date demo_handler)
     (end_date demo_handler) = Inr demo_long"
  by (simp add: demo_defs demo_long_def)

lemma demo_batch_mv:
  "daily_basic (pro demo_handler) (join_comma [''AAA'', ''BBB'']) (start_date demo_handler)
     (end_date demo_handler) ([''total_mv''] @ [''trade_date'', ''ts_code'']) = Inr demo_long_mv"
  by (simp add: demo_defs demo_long_mv_def)

lemma demo_same: "same_long_table demo_long demo_combined"
proof -
  have "mset (rows demo_long) = mset (rows demo_combined)"
    by (simp add: demo_long_def demo_combined_def)
  then show ?thesis
    unfolding same_long_table_def
    by (simp add: demo_long_def demo_combined_def mk_row_def unique_def)
qed

lemma demo_same_mv: "same_long_table demo_long_mv demo_combined_mv"
proof -
  have "mset (rows demo_long_mv) = mset (rows demo_combined_mv)"
    by (simp add: demo_long_mv_def demo_combined_mv_def)
  then show ?thesis
    unfolding same_long_table_def
    by (simp add: demo_long_mv_def demo_combined_mv_def mk_row_def unique_def)
qed

theorem sequential_and_batch_agree_witness:
  "answers (\<lambda>s. daily (pro demo_handler) s (start_date demo_handler) (end_date demo_handler))
     [''AAA'', ''BBB''] = Inr demo_all_data \<and>
   pd_concat demo_all_data = Inr demo_combined \<and>
   daily (pro demo_handler) (join_comma [''AAA'', ''BBB'']) (start_date demo_handler)
     (end_date demo_handler) = Inr demo_long \<and>
   rows demo_long \<noteq> [] \<and> same_long_table demo_long demo_combined \<and>
   answers (\<lambda>s. daily_basic (pro demo_handler) s (start_date demo_handler)
     (end_date demo_handler) ([''total_mv''] @ [''trade_date''])) [''AAA'', ''BBB''] =
     Inr demo_all_data_mv \<and>
   pd_concat demo_all_data_mv = Inr demo_combined_mv \<and>
   daily_basic (pro demo_handler) (join_comma [''AAA'', ''BBB'']) (start_date demo_handler)
     (end_date demo_handler) ([''total_mv''] @ [''trade_date'', ''ts_code'']) = Inr demo_long_mv \<and>
   rows demo_long_mv \<noteq> [] \<and> same_long_table demo_long_mv demo_combined_mv \<and>
   snd (get_prices_from_tushare_parallel demo_handler [''AAA'', ''BBB''] [''close'']) =
     map_sum id Some (snd (get_prices_from_tushare demo_handler [''AAA'', ''BBB''] [''close''] 0)) \<and>
   snd (get_factors_from_tushare_parallel demo_handler [''AAA'', ''BBB''] [''total_mv'']) =
     map_sum id Some
       (snd (get_factors_from_tushare demo_handler [''AAA'', ''BBB''] [''total_mv''] 0))"
proof -
  have n: "rows demo_long \<noteq> []" "rows demo_long_mv \<noteq> []"
    by (simp_all add: demo_long_def demo_long_mv_def)
  from sequential_and_batch_agree [where h = demo_handler and stock_list = "[''AAA'', ''BBB'']"
      and all_data = demo_all_data and combined_data = demo_combined and df_all = demo_long
      and flds = "[''close'']" and sleep_time = 0 and factors = "[''total_mv'']"
      and all_data' = demo_all_data_mv and combined_data' = demo_combined_mv
      and df_all' = demo_long_mv]
    demo_answers demo_concat demo_batch demo_same
    demo_answers_mv demo_concat_mv demo_batch_mv demo_same_mv n
  show ?thesis by (simp del: join_comma.simps append.simps)
qed


text \<open>The condition on the first-seen order is needed: the rows of \<open>demo_long\<close> with a
  row of \<open>BBB\<close> moved to the front give the columns in the other order.\<close>

lemma reordered_answer_other_columns:
  "mset (rows demo_long_reordered) = mset (rows demo_long) \<and>
   reshape_prices demo_long_reordered [''close''] [''Close''] =
     Inr \<lparr>wcolumns = [(''BBB'', ''Close''), (''AAA'', ''Close'')],
          wrows = [(20240102, [Some 20, Some 10]), (20240103, [None, Some 11])]\<rparr>"
proof -
  have "mset (rows demo_long_reordered) = mset (rows demo_long)"
    by (simp add: demo_long_reordered_def demo_long_def)
  moreover have "reshape_prices demo_long_reordered [''close''] [''Close''] =
     Inr \<lparr>wcolumns = [(''BBB'', ''Close''), (''AAA'', ''Close'')],
          wrows = [(20240102, [Some 20, Some 10]), (20240103, [None, Some 11])]\<rparr>"
    by (simp add: demo_long_reordered_def field_mapping_def price_columns_def pandas_defs Let_def)
  ultimately show ?thesis by simp
qed

end
